theory Spec2Isabelle
  imports Complex_Main
begin

section \<open>Values shared by both scenes\<close>

text \<open>
  JavaScript numbers are read as real numbers: the development is about which fields a
  method writes and with which operands, not about binary rounding. Quotients whose
  divisor comes from the window (\<open>innerWidth / innerHeight\<close>) are kept as formal
  quotients, and the pointer quotients of the mouse handler are taken as inputs, so no
  statement rests on what a division by zero yields. Console output is left out.
\<close>

type_synonym num = real

record vec3 =
  vx :: num
  vy :: num
  vz :: num

definition vec3_set :: "num \<Rightarrow> num \<Rightarrow> num \<Rightarrow> vec3" where
  "vec3_set a b c = \<lparr>vx = a, vy = b, vz = c\<rparr>"

datatype color = ColorHex nat | ColorStr string

datatype ratio = Quot num num

record camera =
  fov :: num
  aspect :: ratio
  near :: num
  far :: num
  camera_position :: vec3

record renderer =
  antialias :: bool
  rsize :: "num \<times> num"
  shadowMapEnabled :: bool
  toneMappingExposure :: "num option"

record mesh =
  rotation :: vec3
  position :: vec3
  scale :: vec3
  color :: color
  castShadow :: bool
  receiveShadow :: bool

text \<open>
  The scene graph as \<open>traverse\<close> sees it: every node has a name (its identity), possibly
  a geometry, and no material, one material or an array of materials.
\<close>

datatype material = NoMaterial | OneMaterial string | ManyMaterials "string list"

datatype object3d =
  Object3D (obj_name: string) (geometry: "string option") (material: material)
    (children: "object3d list")

text \<open>\<open>parent.add(child)\<close> on the node at hand.\<close>

fun add_child :: "object3d \<Rightarrow> object3d \<Rightarrow> object3d" where
  "add_child c (Object3D n g m cs) = Object3D n g m (cs @ [c])"

text \<open>\<open>Object3D.traverse\<close>: the node itself, then each child's subtree in order.\<close>

fun traverse :: "object3d \<Rightarrow> object3d list" where
  "traverse (Object3D n g m cs) = Object3D n g m cs # concat (map traverse cs)"

text \<open>
  Calls into the graphics library that leave no trace in the fields of a scene. A call
  on a renderer or on orbit controls carries the scene object that owns them; geometries
  and materials go by name.
\<close>

datatype libcall =
  Render nat
  | RendererDispose nat
  | ControlsDispose nat
  | ControlsUpdate nat
  | UpdateProjectionMatrix nat
  | GeometryDispose string
  | MaterialDispose string

text \<open>
  A method either returns or throws (a \<open>TypeError\<close> on reading a property of \<open>null\<close>);
  in both cases the writes made so far stay.
\<close>

datatype 'a outcome = Returned 'a | Threw 'a

fun state_of :: "'a outcome \<Rightarrow> 'a" where
  "state_of (Returned x) = x"
| "state_of (Threw x) = x"

fun and_then :: "'a outcome \<Rightarrow> ('a \<Rightarrow> 'a outcome) \<Rightarrow> 'a outcome" where
  "and_then (Returned x) f = f x"
| "and_then (Threw x) f = Threw x"

section \<open>The browser\<close>

text \<open>
  What the page's code sees of the browser: the elements of the document by id, their
  class lists, the canvases appended to containers, the listeners bound (target, event
  type and closure, a scene's closure with the scene object it captured), the pending
  timeouts of the click pulse (scene object and captured scale), the window size, the
  clock, the animation-frame callbacks (handle and captured scene object), the library
  calls made so far, and the number of scene objects constructed so far.
\<close>

datatype closure =
  EnhancedBtnClick
  | BackBtnClick
  | WindowResizeHandler
  | RotationSpeedInput nat
  | CubeColorInput nat
  | WireframeChange nat
  | ScaleInput nat
  | MouseMove nat
  | CanvasClick nat

record browser =
  elements :: "string set"
  classList :: "string \<Rightarrow> string set"
  appended :: "(string \<times> nat) list"
  listeners :: "(string \<times> string \<times> closure) list"
  timeouts :: "(nat \<times> num) list"
  innerWidth :: num
  innerHeight :: num
  clock :: num
  next_handle :: nat
  pending :: "(nat \<times> nat) list"
  calls :: "libcall list"
  next_oid :: nat

text \<open>Handles are positive and never reused.\<close>

definition requestAnimationFrame :: "nat \<Rightarrow> browser \<Rightarrow> nat \<times> browser" where
  "requestAnimationFrame self b =
     (let h = next_handle b + 1
      in (h, b\<lparr>next_handle := h, pending := pending b @ [(h, self)]\<rparr>))"

definition cancelAnimationFrame :: "nat \<Rightarrow> browser \<Rightarrow> browser" where
  "cancelAnimationFrame h b = b\<lparr>pending := filter (\<lambda>cb. fst cb \<noteq> h) (pending b)\<rparr>"

definition library :: "libcall list \<Rightarrow> browser \<Rightarrow> browser" where
  "library cs b = b\<lparr>calls := calls b @ cs\<rparr>"

text \<open>The callbacks scheduled for the scene object \<open>self\<close>.\<close>

definition scheduled :: "nat \<Rightarrow> browser \<Rightarrow> nat list" where
  "scheduled self b = map fst (filter (\<lambda>cb. snd cb = self) (pending b))"

section \<open>The fields both scene classes have\<close>

record scene_fields =
  oid :: nat
  scene :: "object3d option"
  background :: "color option"
  camera :: "camera option"
  renderer :: "renderer option"
  cube :: "mesh option"
  animationId :: "nat option"
  isAnimating :: bool

type_synonym basic_scene = scene_fields

text \<open>\<open>if (this.animationId)\<close>: neither \<open>null\<close> nor \<open>0\<close>.\<close>

fun truthy :: "nat option \<Rightarrow> bool" where
  "truthy None = False"
| "truthy (Some h) = (h \<noteq> 0)"

text \<open>The callback of \<open>scene.traverse\<close> in both \<open>dispose\<close> methods.\<close>

fun dispose_materials :: "material \<Rightarrow> libcall list" where
  "dispose_materials NoMaterial = []"
| "dispose_materials (OneMaterial m) = [MaterialDispose m]"
| "dispose_materials (ManyMaterials ms) = map MaterialDispose ms"

definition dispose_object :: "object3d \<Rightarrow> libcall list" where
  "dispose_object ob =
     (case geometry ob of None \<Rightarrow> [] | Some g \<Rightarrow> [GeometryDispose g])
     @ dispose_materials (material ob)"

definition dispose_graph :: "object3d \<Rightarrow> libcall list" where
  "dispose_graph graph = concat (map dispose_object (traverse graph))"

section \<open>BasicScene\<close>

definition BasicScene :: "nat \<Rightarrow> basic_scene" where
  "BasicScene self =
     \<lparr>oid = self, scene = None, background = None, camera = None, renderer = None,
      cube = None, animationId = None, isAnimating = False\<rparr>"

definition new_BasicScene :: "browser \<Rightarrow> basic_scene \<times> browser" where
  "new_BasicScene b = (BasicScene (next_oid b), b\<lparr>next_oid := next_oid b + 1\<rparr>)"

definition basic_createScene :: "basic_scene \<Rightarrow> basic_scene" where
  "basic_createScene s =
     s\<lparr>scene := Some (Object3D ''scene'' None NoMaterial []),
       background := Some (ColorHex 657935)\<rparr>"

definition basic_createCamera :: "basic_scene \<Rightarrow> browser \<Rightarrow> basic_scene" where
  "basic_createCamera s b =
     s\<lparr>camera := Some \<lparr>fov = 75, aspect = Quot (innerWidth b) (innerHeight b),
                        near = 0.1, far = 1000, camera_position = vec3_set 0 0 5\<rparr>\<rparr>"

definition basic_createRenderer ::
  "string \<Rightarrow> basic_scene \<Rightarrow> browser \<Rightarrow> basic_scene \<times> browser" where
  "basic_createRenderer container s b =
     (s\<lparr>renderer := Some \<lparr>antialias = True, rsize = (innerWidth b, innerHeight b),
                           shadowMapEnabled = True, toneMappingExposure = None\<rparr>\<rparr>,
      b\<lparr>appended := appended b @ [(container, oid s)]\<rparr>)"

definition basic_cube_node :: object3d where
  "basic_cube_node =
     Object3D ''cube'' (Some ''BoxGeometry'') (OneMaterial ''MeshLambertMaterial'') []"

definition basic_createCube :: "basic_scene \<Rightarrow> basic_scene outcome" where
  "basic_createCube s =
     (let s1 = s\<lparr>cube := Some \<lparr>rotation = vec3_set 0 0 0, position = vec3_set 0 0 0,
                                 scale = vec3_set 1 1 1, color = ColorHex 6514417,
                                 castShadow = True, receiveShadow = True\<rparr>\<rparr>
      in case scene s1 of
           None \<Rightarrow> Threw s1
         | Some graph \<Rightarrow> Returned (s1\<lparr>scene := Some (add_child basic_cube_node graph)\<rparr>))"

definition basic_addLights :: "basic_scene \<Rightarrow> basic_scene outcome" where
  "basic_addLights s =
     (case scene s of
        None \<Rightarrow> Threw s
      | Some graph \<Rightarrow>
          Returned (s\<lparr>scene := Some
            (add_child (Object3D ''pointLight'' None NoMaterial [])
              (add_child (Object3D ''directionalLight'' None NoMaterial [])
                (add_child (Object3D ''ambientLight'' None NoMaterial []) graph)))\<rparr>))"

definition spin :: "num \<Rightarrow> mesh \<Rightarrow> mesh" where
  "spin d c =
     c\<lparr>rotation := (rotation c)\<lparr>vx := vx (rotation c) + d, vy := vy (rotation c) + d\<rparr>\<rparr>"

definition basic_animate :: "basic_scene \<Rightarrow> browser \<Rightarrow> (basic_scene \<times> browser) outcome" where
  "basic_animate s b =
     (if \<not> isAnimating s then Returned (s, b)
      else
        let (h, b1) = requestAnimationFrame (oid s) b;
            s1 = s\<lparr>animationId := Some h\<rparr>;
            s2 = (case cube s1 of None \<Rightarrow> s1 | Some c \<Rightarrow> s1\<lparr>cube := Some (spin 0.005 c)\<rparr>)
        in case renderer s2 of
             None \<Rightarrow> Threw (s2, b1)
           | Some r \<Rightarrow> Returned (s2, library [Render (oid s2)] b1))"

definition basic_init ::
  "string \<Rightarrow> basic_scene \<Rightarrow> browser \<Rightarrow> (basic_scene \<times> browser) outcome" where
  "basic_init containerId s b =
     (if containerId \<notin> elements b then Returned (s, b)
      else
        let s1 = basic_createCamera (basic_createScene s) b;
            (s2, b2) = basic_createRenderer containerId s1 b
        in case and_then (basic_createCube s2) basic_addLights of
             Threw s3 \<Rightarrow> Threw (s3, b2)
           | Returned s3 \<Rightarrow> basic_animate (s3\<lparr>isAnimating := True\<rparr>) b2)"

definition basic_pause :: "basic_scene \<Rightarrow> browser \<Rightarrow> basic_scene \<times> browser" where
  "basic_pause s b =
     (let s1 = s\<lparr>isAnimating := False\<rparr>
      in if truthy (animationId s1) then (s1, cancelAnimationFrame (the (animationId s1)) b)
         else (s1, b))"

definition basic_resume :: "basic_scene \<Rightarrow> browser \<Rightarrow> (basic_scene \<times> browser) outcome" where
  "basic_resume s b = basic_animate (s\<lparr>isAnimating := True\<rparr>) b"

definition basic_onWindowResize :: "basic_scene \<Rightarrow> browser \<Rightarrow> basic_scene \<times> browser" where
  "basic_onWindowResize s b =
     (case (camera s, renderer s) of
        (Some cam, Some r) \<Rightarrow>
          (s\<lparr>camera := Some (cam\<lparr>aspect := Quot (innerWidth b) (innerHeight b)\<rparr>),
             renderer := Some (r\<lparr>rsize := (innerWidth b, innerHeight b)\<rparr>)\<rparr>,
           library [UpdateProjectionMatrix (oid s)] b)
      | _ \<Rightarrow> (s, b))"

definition basic_dispose :: "basic_scene \<Rightarrow> browser \<Rightarrow> basic_scene \<times> browser" where
  "basic_dispose s b =
     (let (s1, b1) = basic_pause s b;
          b2 = (case renderer s1 of None \<Rightarrow> b1 | Some r \<Rightarrow> library [RendererDispose (oid s1)] b1);
          b3 = (case scene s1 of None \<Rightarrow> b2 | Some graph \<Rightarrow> library (dispose_graph graph) b2)
      in (s1, b3))"

section \<open>EnhancedScene\<close>

text \<open>
  \<open>OrbitControls\<close> with the configuration \<open>addOrbitControls\<close> writes; \<open>enabled\<close> is the
  library's flag, true on construction, that \<open>animate\<close> reads.
\<close>

record controls =
  enabled :: bool
  enableDamping :: bool
  dampingFactor :: num
  minDistance :: num
  maxDistance :: num

record light =
  light_color :: nat
  light_position :: vec3
  intensity :: num

text \<open>
  \<open>wireframe\<close> holds the overlay's \<open>visible\<close> flag and \<open>particles\<close> the rotation of
  the point cloud; both and \<open>lights\<close> are undefined until \<open>init\<close> reaches them.
\<close>

record enhanced_scene = scene_fields +
  controls :: "controls option"
  rotationSpeed :: num
  mouseX :: num
  mouseY :: num
  targetRotationX :: num
  targetRotationY :: num
  wireframe :: "bool option"
  lights :: "light list option"
  particles :: "vec3 option"

definition EnhancedScene :: "nat \<Rightarrow> enhanced_scene" where
  "EnhancedScene self =
     \<lparr>oid = self, scene = None, background = None, camera = None, renderer = None,
      cube = None, animationId = None, isAnimating = False,
      controls = None, rotationSpeed = 0.01, mouseX = 0, mouseY = 0,
      targetRotationX = 0, targetRotationY = 0,
      wireframe = None, lights = None, particles = None\<rparr>"

definition new_EnhancedScene :: "browser \<Rightarrow> enhanced_scene \<times> browser" where
  "new_EnhancedScene b = (EnhancedScene (next_oid b), b\<lparr>next_oid := next_oid b + 1\<rparr>)"

definition enhanced_cube_node :: object3d where
  "enhanced_cube_node =
     Object3D ''cube'' (Some ''BoxGeometry'') (OneMaterial ''MeshPhysicalMaterial'')
       [Object3D ''wireframe'' (Some ''EdgesGeometry'') (OneMaterial ''LineBasicMaterial'') []]"

definition enhanced_createEnhancedCube :: "enhanced_scene \<Rightarrow> enhanced_scene outcome" where
  "enhanced_createEnhancedCube s =
     (let s1 = s\<lparr>cube := Some \<lparr>rotation = vec3_set 0 0 0, position = vec3_set 0 0 0,
                                 scale = vec3_set 1 1 1, color = ColorHex 6514417,
                                 castShadow = True, receiveShadow = True\<rparr>\<rparr>
      in case scene s1 of
           None \<Rightarrow> Threw s1
         | Some graph \<Rightarrow>
             Returned (s1\<lparr>scene := Some (add_child enhanced_cube_node graph),
                          wireframe := Some True\<rparr>))"

definition light_colors :: "nat list" where
  "light_colors = [6514417, 9133302, 440020, 1096065, 6583435]"

definition new_light :: "nat \<Rightarrow> nat \<Rightarrow> nat \<Rightarrow> light" where
  "new_light n index c =
     (let angle = (real index / real n) * pi * 2
      in \<lparr>light_color = c, light_position = vec3_set (cos angle * 8) (sin angle * 8) 5,
          intensity = 0.8\<rparr>)"

definition enhanced_addEnhancedLights :: "enhanced_scene \<Rightarrow> enhanced_scene outcome" where
  "enhanced_addEnhancedLights s =
     (case scene s of
        None \<Rightarrow> Threw s
      | Some graph \<Rightarrow>
          Returned (s\<lparr>scene := Some
              (add_child (Object3D ''directionalLight'' None NoMaterial [])
                (fold (\<lambda>c. add_child (Object3D ''light'' None NoMaterial [])) light_colors
                  (add_child (Object3D ''ambientLight'' None NoMaterial []) graph))),
            lights := Some (map (\<lambda>(index, c). new_light (length light_colors) index c)
                              (enumerate 0 light_colors))\<rparr>))"

definition enhanced_addParticles :: "enhanced_scene \<Rightarrow> enhanced_scene outcome" where
  "enhanced_addParticles s =
     (let s1 = s\<lparr>particles := Some (vec3_set 0 0 0)\<rparr>
      in case scene s1 of
           None \<Rightarrow> Threw s1
         | Some graph \<Rightarrow>
             Returned (s1\<lparr>scene := Some
               (add_child (Object3D ''particles'' (Some ''BufferGeometry'')
                             (OneMaterial ''PointsMaterial'') []) graph)\<rparr>))"

definition enhanced_addOrbitControls ::
  "enhanced_scene \<Rightarrow> browser \<Rightarrow> (enhanced_scene \<times> browser) outcome" where
  "enhanced_addOrbitControls s b =
     (case renderer s of
        None \<Rightarrow> Threw (s, b)
      | Some r \<Rightarrow>
          Returned (s\<lparr>controls := Some \<lparr>enabled = True, enableDamping = True,
                         dampingFactor = 0.05, minDistance = 2, maxDistance = 20\<rparr>\<rparr>,
                    library [ControlsUpdate (oid s)] b))"

text \<open>\<open>document.getElementById(id).addEventListener(type, f)\<close>.\<close>

definition bind :: "string \<Rightarrow> string \<Rightarrow> closure \<Rightarrow> browser \<Rightarrow> browser outcome" where
  "bind target type f b =
     (if target \<in> elements b then Returned (b\<lparr>listeners := listeners b @ [(target, type, f)]\<rparr>)
      else Threw b)"

definition enhanced_bindControls :: "enhanced_scene \<Rightarrow> browser \<Rightarrow> browser outcome" where
  "enhanced_bindControls s b =
     and_then (and_then (and_then
       (bind ''rotation-speed'' ''input'' (RotationSpeedInput (oid s)) b)
       (bind ''cube-color'' ''input'' (CubeColorInput (oid s))))
       (bind ''wireframe'' ''change'' (WireframeChange (oid s))))
       (bind ''scale'' ''input'' (ScaleInput (oid s)))"

definition enhanced_addMouseInteraction :: "enhanced_scene \<Rightarrow> browser \<Rightarrow> browser outcome" where
  "enhanced_addMouseInteraction s b =
     (case renderer s of
        None \<Rightarrow> Threw b
      | Some r \<Rightarrow>
          Returned (b\<lparr>listeners := listeners b @
            [(''domElement'', ''mousemove'', MouseMove (oid s)),
             (''domElement'', ''click'', CanvasClick (oid s))]\<rparr>))"

subsection \<open>The listeners of the enhanced scene\<close>

text \<open>\<open>parseFloat\<close> is the parameter \<open>pf\<close>.\<close>

definition on_rotation_speed :: "(string \<Rightarrow> num) \<Rightarrow> string \<Rightarrow> enhanced_scene \<Rightarrow> enhanced_scene" where
  "on_rotation_speed pf v s = s\<lparr>rotationSpeed := pf v\<rparr>"

definition on_cube_color :: "string \<Rightarrow> enhanced_scene \<Rightarrow> enhanced_scene outcome" where
  "on_cube_color v s =
     (case cube s of
        None \<Rightarrow> Threw s
      | Some c \<Rightarrow> Returned (s\<lparr>cube := Some (c\<lparr>color := ColorStr v\<rparr>)\<rparr>))"

definition on_wireframe :: "bool \<Rightarrow> enhanced_scene \<Rightarrow> enhanced_scene outcome" where
  "on_wireframe checked s =
     (case wireframe s of
        None \<Rightarrow> Threw s
      | Some w \<Rightarrow> Returned (s\<lparr>wireframe := Some checked\<rparr>))"

definition on_scale :: "(string \<Rightarrow> num) \<Rightarrow> string \<Rightarrow> enhanced_scene \<Rightarrow> enhanced_scene outcome" where
  "on_scale pf v s =
     (let k = pf v
      in case cube s of
           None \<Rightarrow> Threw s
         | Some c \<Rightarrow> Returned (s\<lparr>cube := Some (c\<lparr>scale := vec3_set k k k\<rparr>)\<rparr>))"

text \<open>
  \<open>nx\<close> and \<open>ny\<close> are \<open>event.clientX / window.innerWidth\<close> and
  \<open>event.clientY / window.innerHeight\<close> as JavaScript computed them.
\<close>

definition on_mousemove :: "num \<Rightarrow> num \<Rightarrow> enhanced_scene \<Rightarrow> enhanced_scene" where
  "on_mousemove nx ny s =
     (let s1 = s\<lparr>mouseX := nx * 2 - 1\<rparr>;
          s2 = s1\<lparr>mouseY := - ny * 2 + 1\<rparr>;
          s3 = s2\<lparr>targetRotationX := mouseY s2 * 0.5\<rparr>
      in s3\<lparr>targetRotationY := mouseX s3 * 0.5\<rparr>)"

definition on_click :: "enhanced_scene \<Rightarrow> browser \<Rightarrow> (enhanced_scene \<times> browser) outcome" where
  "on_click s b =
     (case cube s of
        None \<Rightarrow> Threw (s, b)
      | Some c \<Rightarrow>
          let originalScale = vx (scale c);
              k = originalScale * 1.2
          in Returned (s\<lparr>cube := Some (c\<lparr>scale := vec3_set k k k\<rparr>)\<rparr>,
                       b\<lparr>timeouts := timeouts b @ [(oid s, originalScale)]\<rparr>))"

definition on_pulse_timeout :: "num \<Rightarrow> enhanced_scene \<Rightarrow> enhanced_scene outcome" where
  "on_pulse_timeout originalScale s =
     (case cube s of
        None \<Rightarrow> Threw s
      | Some c \<Rightarrow>
          Returned (s\<lparr>cube := Some (c\<lparr>scale :=
            vec3_set originalScale originalScale originalScale\<rparr>)\<rparr>))"

subsection \<open>The animation loop of the enhanced scene\<close>

definition follow_mouse :: "num \<Rightarrow> num \<Rightarrow> mesh \<Rightarrow> mesh" where
  "follow_mouse tx ty c =
     (let c1 = c\<lparr>rotation := (rotation c)\<lparr>vx := vx (rotation c) + (tx - vx (rotation c)) * 0.05\<rparr>\<rparr>
      in c1\<lparr>rotation := (rotation c1)\<lparr>vy := vy (rotation c1) + (ty - vy (rotation c1)) * 0.05\<rparr>\<rparr>)"

definition orbit_light :: "num \<Rightarrow> nat \<Rightarrow> nat \<Rightarrow> light \<Rightarrow> light" where
  "orbit_light time n index l =
     (let angle = time * 0.5 + (real index / real n) * pi * 2
      in l\<lparr>light_position := (light_position l)\<lparr>vx := cos angle * 8, vy := sin angle * 8\<rparr>,
           intensity := 0.8 + sin (time * 2 + real index) * 0.3\<rparr>)"

definition animate_lights :: "num \<Rightarrow> light list \<Rightarrow> light list" where
  "animate_lights time ls =
     map (\<lambda>(index, l). orbit_light time (length ls) index l) (enumerate 0 ls)"

definition enhanced_animate_tail ::
  "num \<Rightarrow> enhanced_scene \<Rightarrow> browser \<Rightarrow> (enhanced_scene \<times> browser) outcome" where
  "enhanced_animate_tail time s b =
     (let s1 = (case lights s of None \<Rightarrow> s
                | Some ls \<Rightarrow> s\<lparr>lights := Some (animate_lights time ls)\<rparr>);
          s2 = (case particles s1 of None \<Rightarrow> s1
                | Some r \<Rightarrow> s1\<lparr>particles := Some (r\<lparr>vx := vx r + 0.002, vy := vy r + 0.002\<rparr>)\<rparr>)
      in case renderer s2 of
           None \<Rightarrow> Threw (s2, b)
         | Some r \<Rightarrow> Returned (s2, library [Render (oid s2)] b))"

definition enhanced_animate ::
  "enhanced_scene \<Rightarrow> browser \<Rightarrow> (enhanced_scene \<times> browser) outcome" where
  "enhanced_animate s b =
     (if \<not> isAnimating s then Returned (s, b)
      else
        let (h, b1) = requestAnimationFrame (oid s) b;
            s1 = s\<lparr>animationId := Some h\<rparr>;
            time = clock b1 * 0.001;
            b2 = (case controls s1 of None \<Rightarrow> b1
                  | Some k \<Rightarrow> library [ControlsUpdate (oid s1)] b1)
        in case cube s1 of
             None \<Rightarrow> enhanced_animate_tail time s1 b2
           | Some c \<Rightarrow>
               let c1 = spin (rotationSpeed s1) c;
                   c2 = c1\<lparr>position := (position c1)\<lparr>vy := sin (time * 0.5) * 0.3\<rparr>\<rparr>;
                   s2 = s1\<lparr>cube := Some c2\<rparr>
               in (case controls s2 of
                     None \<Rightarrow> Threw (s2, b2)
                   | Some k \<Rightarrow>
                       enhanced_animate_tail time
                         (if \<not> enabled k
                          then s2\<lparr>cube := Some (follow_mouse (targetRotationX s2) (targetRotationY s2) c2)\<rparr>
                          else s2) b2))"

definition enhanced_init ::
  "string \<Rightarrow> enhanced_scene \<Rightarrow> browser \<Rightarrow> (enhanced_scene \<times> browser) outcome" where
  "enhanced_init containerId s b =
     (let s1 = s\<lparr>scene := Some (Object3D ''scene'' None NoMaterial []),
                 background := Some (ColorHex 394768),
                 camera := Some \<lparr>fov = 75, aspect = Quot (innerWidth b) (innerHeight b),
                                  near = 0.1, far = 1000, camera_position = vec3_set 0 0 6\<rparr>,
                 renderer := Some \<lparr>antialias = True, rsize = (innerWidth b, innerHeight b),
                                    shadowMapEnabled = True, toneMappingExposure = Some 1.0\<rparr>\<rparr>
      in if containerId \<notin> elements b then Threw (s1, b)
         else
           let b1 = b\<lparr>appended := appended b @ [(containerId, oid s1)]\<rparr>
           in case and_then (and_then (enhanced_createEnhancedCube s1)
                       enhanced_addEnhancedLights) enhanced_addParticles of
                Threw s2 \<Rightarrow> Threw (s2, b1)
              | Returned s2 \<Rightarrow>
                  (case enhanced_addOrbitControls s2 b1 of
                     Threw sb \<Rightarrow> Threw sb
                   | Returned (s3, b2) \<Rightarrow>
                       (case and_then (enhanced_bindControls s3 b2)
                               (enhanced_addMouseInteraction s3) of
                          Threw b3 \<Rightarrow> Threw (s3, b3)
                        | Returned b3 \<Rightarrow> enhanced_animate (s3\<lparr>isAnimating := True\<rparr>) b3)))"

definition enhanced_pause :: "enhanced_scene \<Rightarrow> browser \<Rightarrow> enhanced_scene \<times> browser" where
  "enhanced_pause s b =
     (let s1 = s\<lparr>isAnimating := False\<rparr>
      in if truthy (animationId s1) then (s1, cancelAnimationFrame (the (animationId s1)) b)
         else (s1, b))"

definition enhanced_resume ::
  "enhanced_scene \<Rightarrow> browser \<Rightarrow> (enhanced_scene \<times> browser) outcome" where
  "enhanced_resume s b = enhanced_animate (s\<lparr>isAnimating := True\<rparr>) b"

definition enhanced_onWindowResize :: "enhanced_scene \<Rightarrow> browser \<Rightarrow> enhanced_scene \<times> browser" where
  "enhanced_onWindowResize s b =
     (case (camera s, renderer s) of
        (Some cam, Some r) \<Rightarrow>
          (s\<lparr>camera := Some (cam\<lparr>aspect := Quot (innerWidth b) (innerHeight b)\<rparr>),
             renderer := Some (r\<lparr>rsize := (innerWidth b, innerHeight b)\<rparr>)\<rparr>,
           library (UpdateProjectionMatrix (oid s) #
                    (case controls s of None \<Rightarrow> [] | Some k \<Rightarrow> [ControlsUpdate (oid s)])) b)
      | _ \<Rightarrow> (s, b))"

definition enhanced_dispose :: "enhanced_scene \<Rightarrow> browser \<Rightarrow> enhanced_scene \<times> browser" where
  "enhanced_dispose s b =
     (let (s1, b1) = enhanced_pause s b;
          b2 = (case controls s1 of None \<Rightarrow> b1 | Some k \<Rightarrow> library [ControlsDispose (oid s1)] b1);
          b3 = (case renderer s1 of None \<Rightarrow> b2 | Some r \<Rightarrow> library [RendererDispose (oid s1)] b2);
          b4 = (case scene s1 of None \<Rightarrow> b3 | Some graph \<Rightarrow> library (dispose_graph graph) b3)
      in (s1, b4))"

section \<open>App\<close>

record app =
  basicScene :: "basic_scene option"
  enhancedScene :: "enhanced_scene option"
  currentView :: string

type_synonym world = "app \<times> browser"

definition classList_remove :: "string \<Rightarrow> string \<Rightarrow> browser \<Rightarrow> browser" where
  "classList_remove el c b = b\<lparr>classList := (classList b)(el := classList b el - {c})\<rparr>"

definition classList_add :: "string \<Rightarrow> string \<Rightarrow> browser \<Rightarrow> browser" where
  "classList_add el c b = b\<lparr>classList := (classList b)(el := insert c (classList b el))\<rparr>"

definition hideBasicView :: "browser \<Rightarrow> browser" where
  "hideBasicView b =
     (if ''basic-view'' \<in> elements b then classList_remove ''basic-view'' ''active'' b else b)"

definition showEnhancedViewUI :: "browser \<Rightarrow> browser" where
  "showEnhancedViewUI b =
     (if ''enhanced-view'' \<in> elements b then classList_add ''enhanced-view'' ''active'' b else b)"

definition hideEnhancedView :: "browser \<Rightarrow> browser" where
  "hideEnhancedView b =
     (if ''enhanced-view'' \<in> elements b then classList_remove ''enhanced-view'' ''active'' b
      else b)"

definition showBasicViewUI :: "browser \<Rightarrow> browser" where
  "showBasicViewUI b =
     (if ''basic-view'' \<in> elements b then classList_add ''basic-view'' ''active'' b else b)"

text \<open>
  The \<open>try\<close>/\<open>catch\<close> of the two initialisers: a throw of \<open>init\<close> is caught and logged,
  and the object, assigned before \<open>init\<close> ran, stays in the field as \<open>init\<close> left it.
\<close>

definition initializeBasicScene :: "world \<Rightarrow> world" where
  "initializeBasicScene w =
     (let (a, b) = w;
          (s, b1) = new_BasicScene b;
          (s1, b2) = state_of (basic_init ''basic-scene'' s b1)
      in (a\<lparr>basicScene := Some s1\<rparr>, b2))"

definition initializeEnhancedScene :: "world \<Rightarrow> world" where
  "initializeEnhancedScene w =
     (let (a, b) = w
      in case enhancedScene a of
           Some e \<Rightarrow> (a, b)
         | None \<Rightarrow>
             let (s, b1) = new_EnhancedScene b;
                 (s1, b2) = state_of (enhanced_init ''enhanced-scene'' s b1)
             in (a\<lparr>enhancedScene := Some s1\<rparr>, b2))"

definition pauseBasicScene :: "world \<Rightarrow> world" where
  "pauseBasicScene w =
     (let (a, b) = w
      in case basicScene a of
           None \<Rightarrow> (a, b)
         | Some s \<Rightarrow> let (s1, b1) = basic_pause s b in (a\<lparr>basicScene := Some s1\<rparr>, b1))"

definition pauseEnhancedScene :: "world \<Rightarrow> world" where
  "pauseEnhancedScene w =
     (let (a, b) = w
      in case enhancedScene a of
           None \<Rightarrow> (a, b)
         | Some e \<Rightarrow> let (e1, b1) = enhanced_pause e b in (a\<lparr>enhancedScene := Some e1\<rparr>, b1))"

definition resumeBasicScene :: "world \<Rightarrow> world outcome" where
  "resumeBasicScene w =
     (let (a, b) = w
      in case basicScene a of
           None \<Rightarrow> Returned (a, b)
         | Some s \<Rightarrow>
             (case basic_resume s b of
                Returned (s1, b1) \<Rightarrow> Returned (a\<lparr>basicScene := Some s1\<rparr>, b1)
              | Threw (s1, b1) \<Rightarrow> Threw (a\<lparr>basicScene := Some s1\<rparr>, b1)))"

definition resumeEnhancedScene :: "world \<Rightarrow> world outcome" where
  "resumeEnhancedScene w =
     (let (a, b) = w
      in case enhancedScene a of
           None \<Rightarrow> Returned (a, b)
         | Some e \<Rightarrow>
             (case enhanced_resume e b of
                Returned (e1, b1) \<Rightarrow> Returned (a\<lparr>enhancedScene := Some e1\<rparr>, b1)
              | Threw (e1, b1) \<Rightarrow> Threw (a\<lparr>enhancedScene := Some e1\<rparr>, b1)))"

text \<open>
  The view switches. A throw inside the \<open>try\<close> block skips the statements after it, so
  \<open>currentView\<close> is then not written.
\<close>

definition showEnhancedView :: "world \<Rightarrow> world" where
  "showEnhancedView w =
     (let (a, b) = w;
          b1 = showEnhancedViewUI (hideBasicView b);
          w1 = pauseBasicScene (initializeEnhancedScene (a, b1))
      in case resumeEnhancedScene w1 of
           Threw w2 \<Rightarrow> w2
         | Returned (a2, b2) \<Rightarrow> (a2\<lparr>currentView := ''enhanced''\<rparr>, b2))"

definition showBasicView :: "world \<Rightarrow> world" where
  "showBasicView w =
     (let (a, b) = w;
          b1 = showBasicViewUI (hideEnhancedView b);
          w1 = pauseEnhancedScene (a, b1)
      in case resumeBasicScene w1 of
           Threw w2 \<Rightarrow> w2
         | Returned (a2, b2) \<Rightarrow> (a2\<lparr>currentView := ''basic''\<rparr>, b2))"

text \<open>
  The earlier revision of the two switches looks the panels up without a guard and has
  no \<open>try\<close>/\<open>catch\<close>: a missing panel, or a throw of \<open>init\<close> or \<open>resume\<close>, ends the
  switch at that point and reaches the caller. Its resize listener has the body of
  \<open>handleWindowResize\<close>.
\<close>

definition legacy_showEnhancedView :: "world \<Rightarrow> world outcome" where
  "legacy_showEnhancedView w =
     (let (a, b) = w
      in if ''basic-view'' \<notin> elements b then Threw (a, b)
         else
           let b1 = classList_remove ''basic-view'' ''active'' b
           in if ''enhanced-view'' \<notin> elements b1 then Threw (a, b1)
              else
                let b2 = classList_add ''enhanced-view'' ''active'' b1
                in case (case enhancedScene a of
                           Some e \<Rightarrow> Returned (a, b2)
                         | None \<Rightarrow>
                             let (s, b3) = new_EnhancedScene b2
                             in (case enhanced_init ''enhanced-scene'' s b3 of
                                   Returned (s1, b4) \<Rightarrow> Returned (a\<lparr>enhancedScene := Some s1\<rparr>, b4)
                                 | Threw (s1, b4) \<Rightarrow> Threw (a\<lparr>enhancedScene := Some s1\<rparr>, b4))) of
                     Threw w1 \<Rightarrow> Threw w1
                   | Returned w1 \<Rightarrow>
                       (case resumeEnhancedScene (pauseBasicScene w1) of
                          Threw w2 \<Rightarrow> Threw w2
                        | Returned (a2, b5) \<Rightarrow> Returned (a2\<lparr>currentView := ''enhanced''\<rparr>, b5)))"

definition legacy_showBasicView :: "world \<Rightarrow> world outcome" where
  "legacy_showBasicView w =
     (let (a, b) = w
      in if ''enhanced-view'' \<notin> elements b then Threw (a, b)
         else
           let b1 = classList_remove ''enhanced-view'' ''active'' b
           in if ''basic-view'' \<notin> elements b1 then Threw (a, b1)
              else
                let b2 = classList_add ''basic-view'' ''active'' b1
                in case resumeBasicScene (pauseEnhancedScene (a, b2)) of
                     Threw w2 \<Rightarrow> Threw w2
                   | Returned (a2, b3) \<Rightarrow> Returned (a2\<lparr>currentView := ''basic''\<rparr>, b3))"

definition handleWindowResize :: "world \<Rightarrow> world" where
  "handleWindowResize w =
     (let (a, b) = w
      in if currentView a = ''basic'' \<and> basicScene a \<noteq> None then
           (let (s1, b1) = basic_onWindowResize (the (basicScene a)) b
            in (a\<lparr>basicScene := Some s1\<rparr>, b1))
         else if currentView a = ''enhanced'' \<and> enhancedScene a \<noteq> None then
           (let (e1, b1) = enhanced_onWindowResize (the (enhancedScene a)) b
            in (a\<lparr>enhancedScene := Some e1\<rparr>, b1))
         else (a, b))"

definition bind_if_present :: "string \<Rightarrow> string \<Rightarrow> closure \<Rightarrow> browser \<Rightarrow> browser" where
  "bind_if_present target type f b =
     (if target \<in> elements b then b\<lparr>listeners := listeners b @ [(target, type, f)]\<rparr> else b)"

definition bindEvents :: "browser \<Rightarrow> browser" where
  "bindEvents b =
     (let b1 = bind_if_present ''enhanced-btn'' ''click'' EnhancedBtnClick b;
          b2 = bind_if_present ''back-btn'' ''click'' BackBtnClick b1
      in b2\<lparr>listeners := listeners b2 @ [(''window'', ''resize'', WindowResizeHandler)]\<rparr>)"

text \<open>\<open>new App()\<close> on a page.\<close>

definition App :: "browser \<Rightarrow> world" where
  "App b =
     (let (a, b1) = initializeBasicScene
                      (\<lparr>basicScene = None, enhancedScene = None, currentView = ''basic''\<rparr>, b)
      in (a, bindEvents b1))"

text \<open>
  \<open>App.dispose\<close>. Its \<open>removeEventListener\<close> is given \<open>this.handleWindowResize\<close>, which is
  not the arrow function that \<open>bindWindowResize\<close> registered, so the listeners stay.
\<close>

definition app_dispose :: "world \<Rightarrow> world" where
  "app_dispose w =
     (let (a, b) = w;
          (a1, b1) = (case basicScene a of
                        None \<Rightarrow> (a, b)
                      | Some s \<Rightarrow> (a\<lparr>basicScene := None\<rparr>, snd (basic_dispose s b)));
          (a2, b2) = (case enhancedScene a1 of
                        None \<Rightarrow> (a1, b1)
                      | Some e \<Rightarrow> (a1\<lparr>enhancedScene := None\<rparr>, snd (enhanced_dispose e b1)))
      in (a2, b2))"

subsection \<open>Animation frames\<close>

text \<open>
  The callback \<open>() => this.animate()\<close> of the scene object \<open>self\<close>. An exception in a
  callback is reported by the browser and ends that callback only. A scene object the
  application no longer holds was disposed, hence paused, and its \<open>animate\<close> returns at
  once: the world stays as it is.
\<close>

definition animate_callback :: "nat \<Rightarrow> world \<Rightarrow> world" where
  "animate_callback self w =
     (let (a, b) = w
      in if map_option oid (basicScene a) = Some self then
           (let (s1, b1) = state_of (basic_animate (the (basicScene a)) b)
            in (a\<lparr>basicScene := Some s1\<rparr>, b1))
         else if map_option oid (enhancedScene a) = Some self then
           (let (e1, b1) = state_of (enhanced_animate (the (enhancedScene a)) b)
            in (a\<lparr>enhancedScene := Some e1\<rparr>, b1))
         else (a, b))"

text \<open>
  One handle of the frame's snapshot: a callback still in the list is removed from it
  and invoked; one cancelled meanwhile is skipped.
\<close>

definition run_callback :: "nat \<Rightarrow> world \<Rightarrow> world" where
  "run_callback h w =
     (let (a, b) = w
      in case map_of (pending b) h of
           None \<Rightarrow> (a, b)
         | Some self \<Rightarrow> animate_callback self (a, cancelAnimationFrame h b))"

definition run_frame :: "num \<Rightarrow> world \<Rightarrow> world" where
  "run_frame now w =
     (let (a, b) = w;
          b1 = b\<lparr>clock := now\<rparr>
      in fold run_callback (map fst (pending b1)) (a, b1))"

subsection \<open>Events of the page\<close>

datatype event = ShowEnhancedView | ShowBasicView | ResizeTo num num | AnimationFrame num

fun step :: "event \<Rightarrow> world \<Rightarrow> world" where
  "step ShowEnhancedView w = showEnhancedView w"
| "step ShowBasicView w = showBasicView w"
| "step (ResizeTo width height) w =
     handleWindowResize (fst w, (snd w)\<lparr>innerWidth := width, innerHeight := height\<rparr>)"
| "step (AnimationFrame now) w = run_frame now w"

definition run :: "event list \<Rightarrow> world \<Rightarrow> world" where
  "run evs w = fold step evs w"

text \<open>A page with every element the code looks up, the basic view shown.\<close>

definition page :: browser where
  "page =
     \<lparr>elements = {''basic-view'', ''enhanced-view'', ''basic-scene'', ''enhanced-scene'',
                  ''enhanced-btn'', ''back-btn'', ''rotation-speed'', ''cube-color'',
                  ''wireframe'', ''scale''},
      classList = (\<lambda>el. {})(''basic-view'' := {''view'', ''active''}, ''enhanced-view'' := {''view''}),
      appended = [], listeners = [], timeouts = [],
      innerWidth = 1280, innerHeight = 720, clock = 0,
      next_handle = 0, pending = [], calls = [], next_oid = 0\<rparr>"

subsection \<open>Events on the elements\<close>

text \<open>
  What a listener reads of the event it is given: the target's id, the event type,
  \<open>e.target.value\<close> and \<open>e.target.checked\<close>, and the pointer quotients
  \<open>clientX / innerWidth\<close> and \<open>clientY / innerHeight\<close>.
\<close>

record dom_event =
  ev_target :: string
  ev_type :: string
  target_value :: string
  target_checked :: bool
  pointer_x :: num
  pointer_y :: num

text \<open>
  A closure of the enhanced scene runs on the object it captured; an object the
  application no longer holds is out of the world's sight.
\<close>

definition on_enhanced ::
  "nat \<Rightarrow> (enhanced_scene \<Rightarrow> browser \<Rightarrow> enhanced_scene \<times> browser) \<Rightarrow> world \<Rightarrow> world" where
  "on_enhanced self f w =
     (let (a, b) = w
      in case enhancedScene a of
           None \<Rightarrow> (a, b)
         | Some e \<Rightarrow>
             if oid e = self then (let (e1, b1) = f e b in (a\<lparr>enhancedScene := Some e1\<rparr>, b1))
             else (a, b))"

text \<open>The body of each closure; \<open>pf\<close> stands for \<open>parseFloat\<close>.\<close>

fun run_closure :: "(string \<Rightarrow> num) \<Rightarrow> closure \<Rightarrow> dom_event \<Rightarrow> world \<Rightarrow> world" where
  "run_closure pf EnhancedBtnClick d w = showEnhancedView w"
| "run_closure pf BackBtnClick d w = showBasicView w"
| "run_closure pf WindowResizeHandler d w = handleWindowResize w"
| "run_closure pf (RotationSpeedInput self) d w =
     on_enhanced self (\<lambda>e b. (on_rotation_speed pf (target_value d) e, b)) w"
| "run_closure pf (CubeColorInput self) d w =
     on_enhanced self (\<lambda>e b. (state_of (on_cube_color (target_value d) e), b)) w"
| "run_closure pf (WireframeChange self) d w =
     on_enhanced self (\<lambda>e b. (state_of (on_wireframe (target_checked d) e), b)) w"
| "run_closure pf (ScaleInput self) d w =
     on_enhanced self (\<lambda>e b. (state_of (on_scale pf (target_value d) e), b)) w"
| "run_closure pf (MouseMove self) d w =
     on_enhanced self (\<lambda>e b. (on_mousemove (pointer_x d) (pointer_y d) e, b)) w"
| "run_closure pf (CanvasClick self) d w =
     on_enhanced self (\<lambda>e b. state_of (on_click e b)) w"

text \<open>
  Dispatching an event runs, in the order they were bound, the closures that
  \<open>addEventListener\<close> bound for that target and type.
\<close>

definition bound_closures :: "dom_event \<Rightarrow> browser \<Rightarrow> closure list" where
  "bound_closures d b =
     map (\<lambda>l. snd (snd l))
       (filter (\<lambda>l. fst l = ev_target d \<and> fst (snd l) = ev_type d) (listeners b))"

definition dispatch :: "(string \<Rightarrow> num) \<Rightarrow> dom_event \<Rightarrow> world \<Rightarrow> world" where
  "dispatch pf d w = fold (\<lambda>f. run_closure pf f d) (bound_closures d (snd w)) w"

text \<open>The oldest pending timeout of the click pulse fires.\<close>

definition fire_timeout :: "world \<Rightarrow> world" where
  "fire_timeout w =
     (let (a, b) = w
      in case timeouts b of
           [] \<Rightarrow> (a, b)
         | (self, originalScale) # rest \<Rightarrow>
             on_enhanced self (\<lambda>e b1. (state_of (on_pulse_timeout originalScale e), b1))
               (a, b\<lparr>timeouts := rest\<rparr>))"

text \<open>Everything that can happen on the page: the calls above, events, timeouts.\<close>

datatype page_event = Call event | Dom dom_event | TimeoutFires

fun page_step :: "(string \<Rightarrow> num) \<Rightarrow> page_event \<Rightarrow> world \<Rightarrow> world" where
  "page_step pf (Call ev) w = step ev w"
| "page_step pf (Dom d) w = dispatch pf d w"
| "page_step pf TimeoutFires w = fire_timeout w"

definition page_run :: "(string \<Rightarrow> num) \<Rightarrow> page_event list \<Rightarrow> world \<Rightarrow> world" where
  "page_run pf evs w = fold (page_step pf) evs w"

text \<open>An input event on the rotation-speed control.\<close>

fun speed_input :: "page_event \<Rightarrow> bool" where
  "speed_input (Dom d) = (ev_target d = ''rotation-speed'' \<and> ev_type d = ''input'')"
| "speed_input _ = False"

text \<open>An input event on the element \<open>t\<close> whose value is \<open>v\<close>.\<close>

definition input_event :: "string \<Rightarrow> string \<Rightarrow> dom_event" where
  "input_event t v =
     \<lparr>ev_target = t, ev_type = ''input'', target_value = v, target_checked = False,
      pointer_x = 0, pointer_y = 0\<rparr>"

text \<open>\<open>parseFloat\<close> on the two values the examples below use.\<close>

definition sample_parseFloat :: "string \<Rightarrow> num" where
  "sample_parseFloat v = (if v = ''2'' then 2 else if v = ''0.05'' then 0.05 else 0)"

text \<open>The cube of the page's enhanced scene.\<close>

definition enhanced_cube :: "world \<Rightarrow> mesh option" where
  "enhanced_cube w = (case enhancedScene (fst w) of None \<Rightarrow> None | Some e \<Rightarrow> cube e)"

subsection \<open>The earlier revision of the application\<close>

text \<open>
  The earlier \<open>BasicScene.init\<close> has no guard: it appends the canvas to whatever the
  lookup returned and throws on \<open>null\<close>, after scene, camera and renderer were created.
  The earlier \<open>bindEvents\<close> binds to the buttons without looking whether they exist, and
  the earlier constructor has no \<open>try\<close>/\<open>catch\<close>. An exception in a listener ends that
  listener; the page goes on from the state it left.
\<close>

definition legacy_basic_init ::
  "string \<Rightarrow> basic_scene \<Rightarrow> browser \<Rightarrow> (basic_scene \<times> browser) outcome" where
  "legacy_basic_init containerId s b =
     (let s1 = basic_createCamera (basic_createScene s) b;
          (s2, b2) = basic_createRenderer containerId s1 b
      in if containerId \<notin> elements b then Threw (s2, b)
         else case and_then (basic_createCube s2) basic_addLights of
                Threw s3 \<Rightarrow> Threw (s3, b2)
              | Returned s3 \<Rightarrow> basic_animate (s3\<lparr>isAnimating := True\<rparr>) b2)"

definition legacy_bindEvents :: "browser \<Rightarrow> browser outcome" where
  "legacy_bindEvents b =
     (case and_then (bind ''enhanced-btn'' ''click'' EnhancedBtnClick b)
             (bind ''back-btn'' ''click'' BackBtnClick) of
        Threw b1 \<Rightarrow> Threw b1
      | Returned b1 \<Rightarrow>
          Returned (b1\<lparr>listeners := listeners b1 @ [(''window'', ''resize'', WindowResizeHandler)]\<rparr>))"

definition legacy_App :: "browser \<Rightarrow> world outcome" where
  "legacy_App b =
     (let (s, b1) = new_BasicScene b
      in case legacy_basic_init ''basic-scene'' s b1 of
           Threw (s1, b2) \<Rightarrow>
             Threw (\<lparr>basicScene = Some s1, enhancedScene = None, currentView = ''basic''\<rparr>, b2)
         | Returned (s1, b2) \<Rightarrow>
             (case legacy_bindEvents b2 of
                Threw b3 \<Rightarrow>
                  Threw (\<lparr>basicScene = Some s1, enhancedScene = None, currentView = ''basic''\<rparr>, b3)
              | Returned b3 \<Rightarrow>
                  Returned (\<lparr>basicScene = Some s1, enhancedScene = None, currentView = ''basic''\<rparr>, b3)))"

fun legacy_step :: "event \<Rightarrow> world \<Rightarrow> world outcome" where
  "legacy_step ShowEnhancedView w = legacy_showEnhancedView w"
| "legacy_step ShowBasicView w = legacy_showBasicView w"
| "legacy_step (ResizeTo width height) w =
     Returned (handleWindowResize (fst w, (snd w)\<lparr>innerWidth := width, innerHeight := height\<rparr>))"
| "legacy_step (AnimationFrame now) w = Returned (run_frame now w)"

definition legacy_run :: "event list \<Rightarrow> world \<Rightarrow> world" where
  "legacy_run evs w = fold (\<lambda>ev v. state_of (legacy_step ev v)) evs w"

section \<open>Reachable scene states\<close>

text \<open>
  The states a scene object can be in: those of a freshly constructed object and
  whatever its methods and listeners make of them, each called in any state of the
  browser. A throw leaves the object as it was at the throw.
\<close>

inductive basic_reachable :: "basic_scene \<Rightarrow> bool" where
  constructed: "basic_reachable (BasicScene self)"
| init: "basic_reachable s \<Longrightarrow> basic_reachable (fst (state_of (basic_init containerId s b)))"
| animate: "basic_reachable s \<Longrightarrow> basic_reachable (fst (state_of (basic_animate s b)))"
| pause: "basic_reachable s \<Longrightarrow> basic_reachable (fst (basic_pause s b))"
| resume: "basic_reachable s \<Longrightarrow> basic_reachable (fst (state_of (basic_resume s b)))"
| resize: "basic_reachable s \<Longrightarrow> basic_reachable (fst (basic_onWindowResize s b))"
| dispose: "basic_reachable s \<Longrightarrow> basic_reachable (fst (basic_dispose s b))"

text \<open>
  The methods and listeners of the enhanced scene as steps on one scene object.
  \<open>speed_kept\<close> marks the steps that are not an input on the rotation-speed control.
\<close>

datatype enhanced_op =
  Init string
  | Animate
  | Pause
  | Resume
  | Resize
  | Dispose
  | SpeedInput string
  | ColorInput string
  | WireframeToggle bool
  | ScaleInputOp string
  | MouseMoveOp num num
  | Click
  | PulseTimeout num

fun enhanced_step ::
  "(string \<Rightarrow> num) \<Rightarrow> enhanced_op \<Rightarrow> enhanced_scene \<Rightarrow> browser \<Rightarrow> enhanced_scene \<times> browser" where
  "enhanced_step pf (Init containerId) s b = state_of (enhanced_init containerId s b)"
| "enhanced_step pf Animate s b = state_of (enhanced_animate s b)"
| "enhanced_step pf Pause s b = enhanced_pause s b"
| "enhanced_step pf Resume s b = state_of (enhanced_resume s b)"
| "enhanced_step pf Resize s b = enhanced_onWindowResize s b"
| "enhanced_step pf Dispose s b = enhanced_dispose s b"
| "enhanced_step pf (SpeedInput v) s b = (on_rotation_speed pf v s, b)"
| "enhanced_step pf (ColorInput v) s b = (state_of (on_cube_color v s), b)"
| "enhanced_step pf (WireframeToggle checked) s b = (state_of (on_wireframe checked s), b)"
| "enhanced_step pf (ScaleInputOp v) s b = (state_of (on_scale pf v s), b)"
| "enhanced_step pf (MouseMoveOp nx ny) s b = (on_mousemove nx ny s, b)"
| "enhanced_step pf Click s b = state_of (on_click s b)"
| "enhanced_step pf (PulseTimeout originalScale) s b = (state_of (on_pulse_timeout originalScale s), b)"

fun speed_kept :: "enhanced_op \<Rightarrow> bool" where
  "speed_kept (SpeedInput v) = False"
| "speed_kept _ = True"

section \<open>Invariants of the page\<close>

text \<open>
  An enhanced scene is sound when \<open>animate\<close> cannot throw on it: it has a renderer, and
  orbit controls whenever it has a cube.
\<close>

definition sound :: "enhanced_scene \<Rightarrow> bool" where
  "sound e \<longleftrightarrow> renderer e \<noteq> None \<and> (cube e \<noteq> None \<longrightarrow> controls e \<noteq> None)"

text \<open>
  What every reachable enhanced scene satisfies: a cube comes with a renderer and with
  orbit controls, and the controls are enabled (the page's code never writes the flag).
\<close>

definition steady :: "enhanced_scene \<Rightarrow> bool" where
  "steady s \<longleftrightarrow>
     (cube s \<noteq> None \<longrightarrow> renderer s \<noteq> None \<and> controls s \<noteq> None)
     \<and> (case controls s of None \<Rightarrow> True | Some k \<Rightarrow> enabled k)"

text \<open>A view panel is shown when its class list has \<open>active\<close>.\<close>

definition shown :: "string \<Rightarrow> browser \<Rightarrow> bool" where
  "shown el b \<longleftrightarrow> ''active'' \<in> classList b el"

text \<open>
  What the code needs of the document it is loaded into: the two view panels and the
  container of the basic scene exist, and the basic view is the one shown at first.
\<close>

definition wf_page :: "browser \<Rightarrow> bool" where
  "wf_page b \<longleftrightarrow>
     ''basic-view'' \<in> elements b \<and> ''enhanced-view'' \<in> elements b \<and> ''basic-scene'' \<in> elements b
     \<and> shown ''basic-view'' b \<and> \<not> shown ''enhanced-view'' b"

text \<open>
  Exactly one panel is shown, \<open>currentView\<close> names it, and the scene of the other view
  is not animating (before the first switch there is no enhanced scene yet).
\<close>

definition views_consistent :: "world \<Rightarrow> bool" where
  "views_consistent w \<longleftrightarrow>
     (let (a, b) = w in
        (currentView a = ''basic'' \<and> shown ''basic-view'' b \<and> \<not> shown ''enhanced-view'' b
           \<and> (case enhancedScene a of None \<Rightarrow> True | Some e \<Rightarrow> \<not> isAnimating e))
      \<or> (currentView a = ''enhanced'' \<and> shown ''enhanced-view'' b \<and> \<not> shown ''basic-view'' b
           \<and> (case basicScene a of None \<Rightarrow> False | Some s \<Rightarrow> \<not> isAnimating s)))"

definition app_inv :: "world \<Rightarrow> bool" where
  "app_inv w \<longleftrightarrow>
     (let (a, b) = w in
        ''basic-view'' \<in> elements b \<and> ''enhanced-view'' \<in> elements b
        \<and> (case basicScene a of None \<Rightarrow> False | Some s \<Rightarrow> renderer s \<noteq> None)
        \<and> (case enhancedScene a of None \<Rightarrow> True | Some e \<Rightarrow> sound e))"

text \<open>
  The scene objects of the page: the basic scene is the object constructed first, the
  enhanced scene, once created, the one constructed second; no other scene object was
  constructed, and each container got the canvas of its one scene, once.
\<close>

definition instances :: "browser \<Rightarrow> bool \<Rightarrow> world \<Rightarrow> bool" where
  "instances b0 created w \<longleftrightarrow>
     map_option oid (basicScene (fst w)) = Some (next_oid b0)
     \<and> map_option oid (enhancedScene (fst w)) = (if created then Some (next_oid b0 + 1) else None)
     \<and> next_oid (snd w) = next_oid b0 + (if created then 2 else 1)
     \<and> elements (snd w) = elements b0
     \<and> appended (snd w) =
         appended b0
         @ (if ''basic-scene'' \<in> elements b0 then [(''basic-scene'', next_oid b0)] else [])
         @ (if created \<and> ''enhanced-scene'' \<in> elements b0
            then [(''enhanced-scene'', next_oid b0 + 1)] else [])"

text \<open>The listeners \<open>init\<close> binds for the enhanced scene object \<open>self\<close>, in order.\<close>

definition scene_listeners :: "nat \<Rightarrow> (string \<times> string \<times> closure) list" where
  "scene_listeners self =
     [(''rotation-speed'', ''input'', RotationSpeedInput self),
      (''cube-color'', ''input'', CubeColorInput self),
      (''wireframe'', ''change'', WireframeChange self),
      (''scale'', ''input'', ScaleInput self),
      (''domElement'', ''mousemove'', MouseMove self),
      (''domElement'', ''click'', CanvasClick self)]"

text \<open>
  What the controls need of the document: the container of the enhanced scene and the
  four controls exist, and no listener is bound before the application starts.
\<close>

definition controls_page :: "browser \<Rightarrow> bool" where
  "controls_page b \<longleftrightarrow>
     ''enhanced-scene'' \<in> elements b \<and> ''rotation-speed'' \<in> elements b
     \<and> ''cube-color'' \<in> elements b \<and> ''wireframe'' \<in> elements b \<and> ''scale'' \<in> elements b
     \<and> listeners b = []"

text \<open>
  An enhanced scene whose \<open>init\<close> went through: it has its cube and is steady; \<open>r\<close>, when
  given, is its rotation speed.
\<close>

definition tuned :: "num option \<Rightarrow> enhanced_scene \<Rightarrow> bool" where
  "tuned r e \<longleftrightarrow>
     cube e \<noteq> None \<and> steady e \<and> (case r of None \<Rightarrow> True | Some x \<Rightarrow> rotationSpeed e = x)"

text \<open>
  The page as the application wires it: the listeners are those of \<open>bindEvents\<close>
  followed, once the enhanced scene exists, by those its \<open>init\<close> bound.
\<close>

definition wired :: "browser \<Rightarrow> num option \<Rightarrow> world \<Rightarrow> bool" where
  "wired b0 r w \<longleftrightarrow>
     elements (snd w) = elements b0
     \<and> listeners (snd w) =
         listeners (bindEvents b0)
         @ (case enhancedScene (fst w) of None \<Rightarrow> [] | Some e \<Rightarrow> scene_listeners (oid e))
     \<and> (case enhancedScene (fst w) of None \<Rightarrow> r = None | Some e \<Rightarrow> tuned r e)"

text \<open>A document with every element either revision looks up.\<close>

definition full_page :: "browser \<Rightarrow> bool" where
  "full_page b \<longleftrightarrow>
     wf_page b \<and> ''enhanced-scene'' \<in> elements b \<and> ''rotation-speed'' \<in> elements b
     \<and> ''cube-color'' \<in> elements b \<and> ''wireframe'' \<in> elements b \<and> ''scale'' \<in> elements b
     \<and> ''enhanced-btn'' \<in> elements b \<and> ''back-btn'' \<in> elements b"

section \<open>Properties of the scheduler and of pausing\<close>

lemma cancelAnimationFrame_twice:
  "cancelAnimationFrame h (cancelAnimationFrame h b) = cancelAnimationFrame h b"
  by (simp add: cancelAnimationFrame_def)

text \<open>
  C9. \<open>pause\<close> is idempotent on both scene classes: a second call changes neither the
  scene nor the browser, \<open>isAnimating\<close> is false after it, and with \<open>animationId\<close>
  still \<open>null\<close> it only clears the flag. The method has no statement that can throw.
\<close>

theorem pause_idempotent:
  "basic_pause (fst (basic_pause s b)) (snd (basic_pause s b)) = basic_pause s b
   \<and> \<not> isAnimating (fst (basic_pause s b))
   \<and> basic_pause (s\<lparr>animationId := None\<rparr>) b = (s\<lparr>animationId := None, isAnimating := False\<rparr>, b)
   \<and> enhanced_pause (fst (enhanced_pause e b)) (snd (enhanced_pause e b)) = enhanced_pause e b
   \<and> \<not> isAnimating (fst (enhanced_pause e b))
   \<and> enhanced_pause (e\<lparr>animationId := None\<rparr>) b = (e\<lparr>animationId := None, isAnimating := False\<rparr>, b)"
  by (simp add: basic_pause_def enhanced_pause_def cancelAnimationFrame_twice Let_def)

section \<open>Initialising the basic scene\<close>

text \<open>
  C8. When the document has no element with the given id, \<open>BasicScene.init\<close> returns
  without throwing and leaves the scene and the browser as they were; on a freshly
  constructed scene that means \<open>scene\<close>, \<open>camera\<close>, \<open>renderer\<close> and \<open>cube\<close> are still
  \<open>null\<close> and \<open>isAnimating\<close> is still false, and no frame callback was requested.
\<close>

theorem basic_init_missing_container:
  assumes "containerId \<notin> elements b"
  shows "basic_init containerId s b = Returned (s, b)
         \<and> basic_init containerId (BasicScene self) b = Returned (BasicScene self, b)
         \<and> scene (BasicScene self) = None \<and> camera (BasicScene self) = None
         \<and> renderer (BasicScene self) = None \<and> cube (BasicScene self) = None
         \<and> \<not> isAnimating (BasicScene self)"
  using assms by (simp add: basic_init_def BasicScene_def)

theorem basic_init_missing_container_witness:
  "''basic-scene'' \<notin> elements (page\<lparr>elements := {''enhanced-scene''}\<rparr>)
   \<and> basic_init ''basic-scene'' (BasicScene 0) (page\<lparr>elements := {''enhanced-scene''}\<rparr>)
       = Returned (BasicScene 0, page\<lparr>elements := {''enhanced-scene''}\<rparr>)
   \<and> renderer (BasicScene 0) = None \<and> \<not> isAnimating (BasicScene 0)"
proof -
  have h: "''basic-scene'' \<notin> elements (page\<lparr>elements := {''enhanced-scene''}\<rparr>)"
    by simp
  from basic_init_missing_container [OF h, of "BasicScene 0" 0] h show ?thesis
    by blast
qed

section \<open>The animation loop of the basic scene\<close>

lemma basic_animate_cube:
  assumes "cube (fst (state_of (basic_animate s b))) = Some c'"
  shows "\<exists>c. cube s = Some c \<and> position c' = position c"
  using assms
  by (auto simp: basic_animate_def requestAnimationFrame_def spin_def Let_def
           split: if_splits option.splits)

lemma basic_animate_renderer:
  "renderer (fst (state_of (basic_animate s b))) = renderer s"
  by (auto simp: basic_animate_def requestAnimationFrame_def Let_def split: option.splits)

lemma basic_init_cube:
  assumes "cube (fst (state_of (basic_init cid s b))) = Some c'"
  shows "(cube s = Some c' \<and> renderer (fst (state_of (basic_init cid s b))) = renderer s) \<or>
         (position c' = vec3_set 0 0 0 \<and> renderer (fst (state_of (basic_init cid s b))) \<noteq> None)"
  using assms
  by (auto simp: basic_init_def basic_createScene_def basic_createCamera_def
        basic_createRenderer_def basic_createCube_def basic_addLights_def
        basic_animate_def requestAnimationFrame_def spin_def Let_def
      split: if_splits option.splits)

lemma basic_reachable_cube:
  "basic_reachable s \<Longrightarrow> cube s = Some c \<Longrightarrow> position c = vec3_set 0 0 0 \<and> renderer s \<noteq> None"
proof (induction arbitrary: c rule: basic_reachable.induct)
  case (constructed self)
  then show ?case by (simp add: BasicScene_def)
next
  case (init s containerId b)
  from basic_init_cube [OF init.prems] init.IH show ?case by auto
next
  case (animate s b)
  from basic_animate_cube [OF animate.prems] animate.IH show ?case
    by (auto simp: basic_animate_renderer)
next
  case (pause s b)
  then show ?case by (simp add: basic_pause_def Let_def split: if_splits)
next
  case (resume s b)
  from basic_animate_cube [of "s\<lparr>isAnimating := True\<rparr>" b c] resume show ?case
    by (auto simp: basic_resume_def basic_animate_renderer)
next
  case (resize s b)
  then show ?case
    by (auto simp: basic_onWindowResize_def split: option.splits)
next
  case (dispose s b)
  then show ?case
    by (auto simp: basic_dispose_def basic_pause_def Let_def split: if_splits option.splits)
qed

text \<open>
  C4. A tick of the basic scene's loop, in any state the scene can reach, with
  \<open>isAnimating\<close> true and the cube present: \<open>animate\<close> returns, \<open>cube.rotation.x\<close> and
  \<open>cube.rotation.y\<close> have grown by 0.005 each (\<open>rotation.z\<close> is untouched), the cube's
  position is the origin where \<open>createCube\<close> put it, before and after, and the tick adds
  exactly one \<open>render\<close> call to the calls made so far.
\<close>

theorem basic_tick:
  assumes "basic_reachable s" and "isAnimating s" and "cube s = Some c"
  shows "\<exists>s' b' c'. basic_animate s b = Returned (s', b') \<and> cube s' = Some c'
           \<and> vx (rotation c') = vx (rotation c) + 0.005
           \<and> vy (rotation c') = vy (rotation c) + 0.005
           \<and> vz (rotation c') = vz (rotation c)
           \<and> position c = vec3_set 0 0 0 \<and> position c' = vec3_set 0 0 0
           \<and> calls b' = calls b @ [Render (oid s)]"
proof -
  from basic_reachable_cube [OF assms(1) assms(3)]
  obtain r where "position c = vec3_set 0 0 0" and "renderer s = Some r" by auto
  with assms(2,3) show ?thesis
    by (simp add: basic_animate_def requestAnimationFrame_def spin_def library_def Let_def)
qed

theorem basic_tick_witness:
  "\<exists>s' b' c'.
     basic_animate (fst (state_of (basic_init ''basic-scene'' (BasicScene 0) page))) page = Returned (s', b')
     \<and> cube s' = Some c' \<and> vx (rotation c') = 0.01 \<and> vy (rotation c') = 0.01
     \<and> position c' = vec3_set 0 0 0 \<and> calls b' = [Render 0]"
proof -
  let ?s = "fst (state_of (basic_init ''basic-scene'' (BasicScene 0) page))"
  have r: "basic_reachable ?s"
    by (rule basic_reachable.init) (rule basic_reachable.constructed)
  have s: "?s = (BasicScene 0)\<lparr>scene := scene ?s, background := Some (ColorHex 657935),
      camera := camera ?s, renderer := renderer ?s,
      cube := Some \<lparr>rotation = vec3_set 0.005 0.005 0, position = vec3_set 0 0 0,
                     scale = vec3_set 1 1 1, color = ColorHex 6514417,
                     castShadow = True, receiveShadow = True\<rparr>,
      animationId := Some 1, isAnimating := True\<rparr>"
    by (simp add: basic_init_def page_def BasicScene_def basic_createScene_def
        basic_createCamera_def basic_createRenderer_def basic_createCube_def basic_addLights_def
        basic_animate_def requestAnimationFrame_def spin_def vec3_set_def library_def Let_def)
  have a: "isAnimating ?s" by (subst s) simp
  have c: "cube ?s = Some \<lparr>rotation = vec3_set 0.005 0.005 0, position = vec3_set 0 0 0,
                     scale = vec3_set 1 1 1, color = ColorHex 6514417,
                     castShadow = True, receiveShadow = True\<rparr>" by (subst s) simp
  have o: "oid ?s = 0" by (subst s) (simp add: BasicScene_def)
  have p: "calls page = []" by (simp add: page_def)
  from basic_tick [OF r a c, of page] show ?thesis
    by (simp add: o p vec3_set_def) blast
qed

section \<open>What the methods leave alone\<close>

subsection \<open>The basic scene\<close>

lemma basic_animate_keeps [simp]:
  "oid (fst (state_of (basic_animate s b))) = oid s"
  "isAnimating (fst (state_of (basic_animate s b))) = isAnimating s"
  "renderer (fst (state_of (basic_animate s b))) = renderer s"
  "camera (fst (state_of (basic_animate s b))) = camera s"
  "scene (fst (state_of (basic_animate s b))) = scene s"
  "elements (snd (state_of (basic_animate s b))) = elements b"
  "classList (snd (state_of (basic_animate s b))) = classList b"
  "appended (snd (state_of (basic_animate s b))) = appended b"
  "next_oid (snd (state_of (basic_animate s b))) = next_oid b"
  by (auto simp: basic_animate_def requestAnimationFrame_def library_def Let_def
           split: option.splits)

lemma basic_animate_returns:
  "renderer s \<noteq> None \<Longrightarrow> \<exists>w. basic_animate s b = Returned w"
  by (auto simp: basic_animate_def requestAnimationFrame_def Let_def split: option.splits)

lemma basic_pause_keeps [simp]:
  "fst (basic_pause s b) = s\<lparr>isAnimating := False\<rparr>"
  "elements (snd (basic_pause s b)) = elements b"
  "classList (snd (basic_pause s b)) = classList b"
  "appended (snd (basic_pause s b)) = appended b"
  "next_oid (snd (basic_pause s b)) = next_oid b"
  by (auto simp: basic_pause_def cancelAnimationFrame_def Let_def)

lemma basic_resume_keeps [simp]:
  "oid (fst (state_of (basic_resume s b))) = oid s"
  "isAnimating (fst (state_of (basic_resume s b)))"
  "renderer (fst (state_of (basic_resume s b))) = renderer s"
  "camera (fst (state_of (basic_resume s b))) = camera s"
  "scene (fst (state_of (basic_resume s b))) = scene s"
  "elements (snd (state_of (basic_resume s b))) = elements b"
  "classList (snd (state_of (basic_resume s b))) = classList b"
  "appended (snd (state_of (basic_resume s b))) = appended b"
  "next_oid (snd (state_of (basic_resume s b))) = next_oid b"
  by (simp_all add: basic_resume_def)

lemma basic_resume_returns:
  "renderer s \<noteq> None \<Longrightarrow> \<exists>w. basic_resume s b = Returned w"
  using basic_animate_returns [of "s\<lparr>isAnimating := True\<rparr>" b]
  by (simp add: basic_resume_def)

lemma basic_onWindowResize_keeps [simp]:
  "oid (fst (basic_onWindowResize s b)) = oid s"
  "isAnimating (fst (basic_onWindowResize s b)) = isAnimating s"
  "(renderer (fst (basic_onWindowResize s b)) = None) = (renderer s = None)"
  "cube (fst (basic_onWindowResize s b)) = cube s"
  "animationId (fst (basic_onWindowResize s b)) = animationId s"
  "elements (snd (basic_onWindowResize s b)) = elements b"
  "classList (snd (basic_onWindowResize s b)) = classList b"
  "appended (snd (basic_onWindowResize s b)) = appended b"
  "next_oid (snd (basic_onWindowResize s b)) = next_oid b"
  "pending (snd (basic_onWindowResize s b)) = pending b"
  by (auto simp: basic_onWindowResize_def library_def split: option.splits)

lemma basic_init_keeps [simp]:
  "oid (fst (state_of (basic_init containerId s b))) = oid s"
  "elements (snd (state_of (basic_init containerId s b))) = elements b"
  "classList (snd (state_of (basic_init containerId s b))) = classList b"
  "next_oid (snd (state_of (basic_init containerId s b))) = next_oid b"
  by (auto simp: basic_init_def basic_createScene_def basic_createCamera_def
        basic_createRenderer_def basic_createCube_def basic_addLights_def
        basic_animate_def requestAnimationFrame_def library_def Let_def)

lemma basic_init_present:
  assumes "containerId \<in> elements b"
  shows "renderer (fst (state_of (basic_init containerId s b))) \<noteq> None"
    and "isAnimating (fst (state_of (basic_init containerId s b)))"
  using assms
  by (auto simp: basic_init_def basic_createScene_def basic_createCamera_def
        basic_createRenderer_def basic_createCube_def basic_addLights_def
        basic_animate_def requestAnimationFrame_def library_def Let_def)

subsection \<open>The enhanced scene\<close>

lemma enhanced_animate_tail_keeps [simp]:
  "oid (fst (state_of (enhanced_animate_tail t s b))) = oid s"
  "isAnimating (fst (state_of (enhanced_animate_tail t s b))) = isAnimating s"
  "animationId (fst (state_of (enhanced_animate_tail t s b))) = animationId s"
  "renderer (fst (state_of (enhanced_animate_tail t s b))) = renderer s"
  "camera (fst (state_of (enhanced_animate_tail t s b))) = camera s"
  "scene (fst (state_of (enhanced_animate_tail t s b))) = scene s"
  "cube (fst (state_of (enhanced_animate_tail t s b))) = cube s"
  "controls (fst (state_of (enhanced_animate_tail t s b))) = controls s"
  "rotationSpeed (fst (state_of (enhanced_animate_tail t s b))) = rotationSpeed s"
  "elements (snd (state_of (enhanced_animate_tail t s b))) = elements b"
  "classList (snd (state_of (enhanced_animate_tail t s b))) = classList b"
  "appended (snd (state_of (enhanced_animate_tail t s b))) = appended b"
  "next_oid (snd (state_of (enhanced_animate_tail t s b))) = next_oid b"
  "pending (snd (state_of (enhanced_animate_tail t s b))) = pending b"
  by (auto simp: enhanced_animate_tail_def library_def Let_def split: option.splits)

lemma enhanced_animate_keeps [simp]:
  "oid (fst (state_of (enhanced_animate s b))) = oid s"
  "isAnimating (fst (state_of (enhanced_animate s b))) = isAnimating s"
  "renderer (fst (state_of (enhanced_animate s b))) = renderer s"
  "camera (fst (state_of (enhanced_animate s b))) = camera s"
  "scene (fst (state_of (enhanced_animate s b))) = scene s"
  "controls (fst (state_of (enhanced_animate s b))) = controls s"
  "rotationSpeed (fst (state_of (enhanced_animate s b))) = rotationSpeed s"
  "(cube (fst (state_of (enhanced_animate s b))) = None) = (cube s = None)"
  "elements (snd (state_of (enhanced_animate s b))) = elements b"
  "classList (snd (state_of (enhanced_animate s b))) = classList b"
  "appended (snd (state_of (enhanced_animate s b))) = appended b"
  "next_oid (snd (state_of (enhanced_animate s b))) = next_oid b"
  by (auto simp: enhanced_animate_def requestAnimationFrame_def library_def Let_def
           split: option.splits)

lemma enhanced_animate_returns:
  "sound s \<Longrightarrow> \<exists>w. enhanced_animate s b = Returned w"
  by (auto simp: sound_def enhanced_animate_def enhanced_animate_tail_def
        requestAnimationFrame_def Let_def split: option.splits)

lemma enhanced_pause_keeps [simp]:
  "fst (enhanced_pause s b) = s\<lparr>isAnimating := False\<rparr>"
  "elements (snd (enhanced_pause s b)) = elements b"
  "classList (snd (enhanced_pause s b)) = classList b"
  "appended (snd (enhanced_pause s b)) = appended b"
  "next_oid (snd (enhanced_pause s b)) = next_oid b"
  by (auto simp: enhanced_pause_def cancelAnimationFrame_def Let_def)

lemma enhanced_resume_keeps [simp]:
  "oid (fst (state_of (enhanced_resume s b))) = oid s"
  "isAnimating (fst (state_of (enhanced_resume s b)))"
  "renderer (fst (state_of (enhanced_resume s b))) = renderer s"
  "controls (fst (state_of (enhanced_resume s b))) = controls s"
  "(cube (fst (state_of (enhanced_resume s b))) = None) = (cube s = None)"
  "elements (snd (state_of (enhanced_resume s b))) = elements b"
  "classList (snd (state_of (enhanced_resume s b))) = classList b"
  "appended (snd (state_of (enhanced_resume s b))) = appended b"
  "next_oid (snd (state_of (enhanced_resume s b))) = next_oid b"
  by (simp_all add: enhanced_resume_def)

lemma enhanced_resume_returns:
  "sound s \<Longrightarrow> \<exists>w. enhanced_resume s b = Returned w"
  using enhanced_animate_returns [of "s\<lparr>isAnimating := True\<rparr>" b]
  by (simp add: enhanced_resume_def sound_def)

lemma enhanced_onWindowResize_keeps [simp]:
  "oid (fst (enhanced_onWindowResize s b)) = oid s"
  "isAnimating (fst (enhanced_onWindowResize s b)) = isAnimating s"
  "(renderer (fst (enhanced_onWindowResize s b)) = None) = (renderer s = None)"
  "cube (fst (enhanced_onWindowResize s b)) = cube s"
  "controls (fst (enhanced_onWindowResize s b)) = controls s"
  "rotationSpeed (fst (enhanced_onWindowResize s b)) = rotationSpeed s"
  "animationId (fst (enhanced_onWindowResize s b)) = animationId s"
  "elements (snd (enhanced_onWindowResize s b)) = elements b"
  "classList (snd (enhanced_onWindowResize s b)) = classList b"
  "appended (snd (enhanced_onWindowResize s b)) = appended b"
  "next_oid (snd (enhanced_onWindowResize s b)) = next_oid b"
  "pending (snd (enhanced_onWindowResize s b)) = pending b"
  by (auto simp: enhanced_onWindowResize_def library_def split: option.splits)

lemmas enhanced_init_defs = enhanced_init_def enhanced_createEnhancedCube_def
  enhanced_addEnhancedLights_def enhanced_addParticles_def enhanced_addOrbitControls_def
  enhanced_bindControls_def bind_def enhanced_addMouseInteraction_def library_def

lemma enhanced_init_keeps [simp]:
  "oid (fst (state_of (enhanced_init containerId s b))) = oid s"
  "rotationSpeed (fst (state_of (enhanced_init containerId s b))) = rotationSpeed s"
  "elements (snd (state_of (enhanced_init containerId s b))) = elements b"
  "classList (snd (state_of (enhanced_init containerId s b))) = classList b"
  "next_oid (snd (state_of (enhanced_init containerId s b))) = next_oid b"
  by (auto simp: enhanced_init_defs Let_def)

lemma enhanced_init_sound:
  "cube s = None \<or> controls s \<noteq> None \<Longrightarrow> sound (fst (state_of (enhanced_init containerId s b)))"
  by (auto simp: sound_def enhanced_init_defs Let_def)

section \<open>The two views\<close>

lemma initializeEnhancedScene_keeps [simp]:
  "basicScene (fst (initializeEnhancedScene w)) = basicScene (fst w)"
  "currentView (fst (initializeEnhancedScene w)) = currentView (fst w)"
  "elements (snd (initializeEnhancedScene w)) = elements (snd w)"
  "classList (snd (initializeEnhancedScene w)) = classList (snd w)"
  by (auto simp: initializeEnhancedScene_def new_EnhancedScene_def Let_def split_beta
           split: option.splits)

lemma initializeEnhancedScene_sound:
  assumes "case enhancedScene a of None \<Rightarrow> True | Some e \<Rightarrow> sound e"
  shows "\<exists>e. enhancedScene (fst (initializeEnhancedScene (a, b))) = Some e \<and> sound e"
proof (cases "enhancedScene a")
  case None
  have "sound (fst (state_of (enhanced_init ''enhanced-scene'' (EnhancedScene (next_oid b))
                       (b\<lparr>next_oid := next_oid b + 1\<rparr>))))"
    by (rule enhanced_init_sound) (simp add: EnhancedScene_def)
  with None show ?thesis
    by (simp add: initializeEnhancedScene_def new_EnhancedScene_def Let_def split_beta)
next
  case (Some e)
  with assms show ?thesis by (simp add: initializeEnhancedScene_def)
qed

lemma pauseBasicScene_keeps [simp]:
  "basicScene (fst (pauseBasicScene w)) = map_option (\<lambda>s. s\<lparr>isAnimating := False\<rparr>) (basicScene (fst w))"
  "enhancedScene (fst (pauseBasicScene w)) = enhancedScene (fst w)"
  "currentView (fst (pauseBasicScene w)) = currentView (fst w)"
  "elements (snd (pauseBasicScene w)) = elements (snd w)"
  "classList (snd (pauseBasicScene w)) = classList (snd w)"
  by (auto simp: pauseBasicScene_def Let_def split_beta split: option.splits)

lemma pauseEnhancedScene_keeps [simp]:
  "enhancedScene (fst (pauseEnhancedScene w)) = map_option (\<lambda>s. s\<lparr>isAnimating := False\<rparr>) (enhancedScene (fst w))"
  "basicScene (fst (pauseEnhancedScene w)) = basicScene (fst w)"
  "currentView (fst (pauseEnhancedScene w)) = currentView (fst w)"
  "elements (snd (pauseEnhancedScene w)) = elements (snd w)"
  "classList (snd (pauseEnhancedScene w)) = classList (snd w)"
  by (auto simp: pauseEnhancedScene_def Let_def split_beta split: option.splits)

lemma resumeEnhancedScene_sound:
  assumes "enhancedScene a = Some e" and "sound e"
  shows "\<exists>e' b'. resumeEnhancedScene (a, b) = Returned (a\<lparr>enhancedScene := Some e'\<rparr>, b')
           \<and> isAnimating e' \<and> sound e' \<and> oid e' = oid e
           \<and> elements b' = elements b \<and> classList b' = classList b \<and> next_oid b' = next_oid b"
proof -
  from enhanced_resume_returns [OF assms(2), of b]
  obtain e' b' where r: "enhanced_resume e b = Returned (e', b')" by auto
  have "e' = fst (state_of (enhanced_resume e b))" and "b' = snd (state_of (enhanced_resume e b))"
    by (simp_all add: r)
  with assms(2) have "isAnimating e' \<and> sound e' \<and> oid e' = oid e
      \<and> elements b' = elements b \<and> classList b' = classList b \<and> next_oid b' = next_oid b"
    by (simp add: sound_def)
  with assms(1) r show ?thesis by (auto simp: resumeEnhancedScene_def)
qed

lemma resumeBasicScene_sound:
  assumes "basicScene a = Some s" and "renderer s \<noteq> None"
  shows "\<exists>s' b'. resumeBasicScene (a, b) = Returned (a\<lparr>basicScene := Some s'\<rparr>, b')
           \<and> isAnimating s' \<and> renderer s' \<noteq> None \<and> oid s' = oid s
           \<and> elements b' = elements b \<and> classList b' = classList b \<and> next_oid b' = next_oid b"
proof -
  from basic_resume_returns [OF assms(2), of b]
  obtain s' b' where r: "basic_resume s b = Returned (s', b')" by auto
  have "s' = fst (state_of (basic_resume s b))" and "b' = snd (state_of (basic_resume s b))"
    by (simp_all add: r)
  with assms(2) have "isAnimating s' \<and> renderer s' \<noteq> None \<and> oid s' = oid s
      \<and> elements b' = elements b \<and> classList b' = classList b \<and> next_oid b' = next_oid b"
    by simp
  with assms(1) r show ?thesis by (auto simp: resumeBasicScene_def)
qed

lemma ui_keeps [simp]:
  "elements (hideBasicView b) = elements b"
  "elements (showEnhancedViewUI b) = elements b"
  "elements (hideEnhancedView b) = elements b"
  "elements (showBasicViewUI b) = elements b"
  "next_oid (hideBasicView b) = next_oid b"
  "next_oid (showEnhancedViewUI b) = next_oid b"
  "next_oid (hideEnhancedView b) = next_oid b"
  "next_oid (showBasicViewUI b) = next_oid b"
  by (simp_all add: hideBasicView_def showEnhancedViewUI_def hideEnhancedView_def
        showBasicViewUI_def classList_add_def classList_remove_def)

lemma ui_shown:
  assumes "''basic-view'' \<in> elements b" and "''enhanced-view'' \<in> elements b"
  shows "shown ''enhanced-view'' (showEnhancedViewUI (hideBasicView b))"
    and "\<not> shown ''basic-view'' (showEnhancedViewUI (hideBasicView b))"
    and "shown ''basic-view'' (showBasicViewUI (hideEnhancedView b))"
    and "\<not> shown ''enhanced-view'' (showBasicViewUI (hideEnhancedView b))"
  using assms
  by (simp_all add: shown_def hideBasicView_def showEnhancedViewUI_def hideEnhancedView_def
        showBasicViewUI_def classList_add_def classList_remove_def)

lemma showEnhancedView_inv:
  assumes "app_inv (a, b)"
  shows "app_inv (showEnhancedView (a, b)) \<and> views_consistent (showEnhancedView (a, b))"
proof -
  let ?b1 = "showEnhancedViewUI (hideBasicView b)"
  let ?w1 = "initializeEnhancedScene (a, ?b1)"
  let ?w2 = "pauseBasicScene ?w1"
  from assms obtain s where s: "basicScene a = Some s" "renderer s \<noteq> None"
    and el: "''basic-view'' \<in> elements b" "''enhanced-view'' \<in> elements b"
    and en: "case enhancedScene a of None \<Rightarrow> True | Some e \<Rightarrow> sound e"
    by (auto simp: app_inv_def split: option.splits)
  from initializeEnhancedScene_sound [OF en, of ?b1]
  obtain e where e: "enhancedScene (fst ?w1) = Some e" "sound e" by auto
  have e2: "enhancedScene (fst ?w2) = Some e"
    using e(1) by simp
  from resumeEnhancedScene_sound [OF e2 e(2), of "snd ?w2"]
  obtain e' b' where r: "resumeEnhancedScene ?w2 = Returned ((fst ?w2)\<lparr>enhancedScene := Some e'\<rparr>, b')"
    and e': "isAnimating e'" "sound e'"
    and b': "elements b' = elements (snd ?w2)" "classList b' = classList (snd ?w2)"
    by auto
  have res: "showEnhancedView (a, b) =
      ((fst ?w2)\<lparr>enhancedScene := Some e', currentView := ''enhanced''\<rparr>, b')"
    using r by (simp add: showEnhancedView_def Let_def)
  have bs: "basicScene (fst ?w2) = Some (s\<lparr>isAnimating := False\<rparr>)"
    using s(1) by simp
  have elb: "elements b' = elements b"
    using b'(1) by simp
  have clb: "classList b' = classList ?b1"
    using b'(2) by simp
  have sh: "shown ''enhanced-view'' b'" "\<not> shown ''basic-view'' b'"
    using ui_shown(1,2) [OF el] clb by (simp_all add: shown_def)
  show ?thesis
    unfolding res app_inv_def views_consistent_def
    using s e' el elb sh by simp
qed

lemma showBasicView_inv:
  assumes "app_inv (a, b)"
  shows "app_inv (showBasicView (a, b)) \<and> views_consistent (showBasicView (a, b))"
proof -
  let ?b1 = "showBasicViewUI (hideEnhancedView b)"
  let ?w1 = "pauseEnhancedScene (a, ?b1)"
  from assms obtain s where s: "basicScene a = Some s" "renderer s \<noteq> None"
    and el: "''basic-view'' \<in> elements b" "''enhanced-view'' \<in> elements b"
    and en: "case enhancedScene a of None \<Rightarrow> True | Some e \<Rightarrow> sound e"
    by (auto simp: app_inv_def split: option.splits)
  have bs: "basicScene (fst ?w1) = Some s" using s(1) by simp
  from resumeBasicScene_sound [OF bs s(2), of "snd ?w1"]
  obtain s' b' where r: "resumeBasicScene ?w1 = Returned ((fst ?w1)\<lparr>basicScene := Some s'\<rparr>, b')"
    and s': "isAnimating s'" "renderer s' \<noteq> None"
    and b': "elements b' = elements (snd ?w1)" "classList b' = classList (snd ?w1)"
    by auto
  have res: "showBasicView (a, b) =
      ((fst ?w1)\<lparr>basicScene := Some s', currentView := ''basic''\<rparr>, b')"
    using r by (simp add: showBasicView_def Let_def)
  have es: "enhancedScene (fst ?w1) = map_option (\<lambda>e. e\<lparr>isAnimating := False\<rparr>) (enhancedScene a)"
    by simp
  have elb: "elements b' = elements b" using b'(1) by simp
  have clb: "classList b' = classList ?b1" using b'(2) by simp
  have sh: "shown ''basic-view'' b'" "\<not> shown ''enhanced-view'' b'"
    using ui_shown(3,4) [OF el] clb by (simp_all add: shown_def)
  show ?thesis
    unfolding res app_inv_def views_consistent_def
    using s(1) en s' el elb sh by (auto simp: sound_def split: option.splits)
qed

text \<open>Whenever a switch of the earlier revision returns, the guarded one does the same.\<close>

lemma legacy_showEnhancedView_agrees:
  assumes "legacy_showEnhancedView w = Returned w'"
  shows "showEnhancedView w = w'"
  using assms
  by (cases w)
     (auto simp: legacy_showEnhancedView_def showEnhancedView_def initializeEnhancedScene_def
        hideBasicView_def showEnhancedViewUI_def classList_add_def classList_remove_def
        Let_def split_beta
        split: if_splits option.splits outcome.splits)

lemma legacy_showBasicView_agrees:
  assumes "legacy_showBasicView w = Returned w'"
  shows "showBasicView w = w'"
  using assms
  by (cases w)
     (auto simp: legacy_showBasicView_def showBasicView_def
        hideEnhancedView_def showBasicViewUI_def classList_add_def classList_remove_def
        Let_def split_beta
        split: if_splits option.splits outcome.splits)

lemma handleWindowResize_inv:
  assumes "app_inv w" and "views_consistent w"
  shows "app_inv (handleWindowResize w) \<and> views_consistent (handleWindowResize w)"
  using assms
  by (cases w)
     (auto simp: handleWindowResize_def app_inv_def views_consistent_def shown_def sound_def
        split_beta Let_def split: option.splits)

lemma resized_inv:
  assumes "app_inv w" and "views_consistent w"
  shows "app_inv (fst w, (snd w)\<lparr>innerWidth := x, innerHeight := y\<rparr>)
         \<and> views_consistent (fst w, (snd w)\<lparr>innerWidth := x, innerHeight := y\<rparr>)"
  using assms by (cases w) (simp add: app_inv_def views_consistent_def shown_def)

lemma animate_callback_inv:
  assumes "app_inv w" and "views_consistent w"
  shows "app_inv (animate_callback self w) \<and> views_consistent (animate_callback self w)"
  using assms
  by (cases w)
     (auto simp: animate_callback_def app_inv_def views_consistent_def shown_def sound_def
        split_beta Let_def split: option.splits)

lemma cancelled_inv:
  assumes "app_inv (a, b)" and "views_consistent (a, b)"
  shows "app_inv (a, cancelAnimationFrame h b) \<and> views_consistent (a, cancelAnimationFrame h b)"
  using assms
  by (simp add: app_inv_def views_consistent_def shown_def cancelAnimationFrame_def)

lemma run_callback_inv:
  assumes "app_inv w" and "views_consistent w"
  shows "app_inv (run_callback h w) \<and> views_consistent (run_callback h w)"
proof (cases w)
  case (Pair a b)
  show ?thesis
  proof (cases "map_of (pending b) h")
    case None
    with Pair assms show ?thesis by (simp add: run_callback_def)
  next
    case (Some self)
    from cancelled_inv [of a b h] assms Pair
    have "app_inv (a, cancelAnimationFrame h b)" "views_consistent (a, cancelAnimationFrame h b)"
      by simp_all
    from animate_callback_inv [OF this, of self] Pair Some show ?thesis
      by (simp add: run_callback_def)
  qed
qed

lemma fold_run_callback_inv:
  "app_inv w \<Longrightarrow> views_consistent w \<Longrightarrow>
   app_inv (fold run_callback hs w) \<and> views_consistent (fold run_callback hs w)"
proof (induction hs arbitrary: w)
  case Nil
  then show ?case by simp
next
  case (Cons h hs)
  from run_callback_inv [OF Cons.prems, of h] Cons.IH [of "run_callback h w"]
  show ?case by simp
qed

lemma run_frame_inv:
  assumes "app_inv w" and "views_consistent w"
  shows "app_inv (run_frame now w) \<and> views_consistent (run_frame now w)"
proof (cases w)
  case (Pair a b)
  from assms Pair have "app_inv (a, b\<lparr>clock := now\<rparr>)" "views_consistent (a, b\<lparr>clock := now\<rparr>)"
    by (simp_all add: app_inv_def views_consistent_def shown_def)
  from fold_run_callback_inv [OF this] Pair show ?thesis
    by (simp add: run_frame_def Let_def)
qed

lemma step_inv:
  assumes "app_inv w" and "views_consistent w"
  shows "app_inv (step ev w) \<and> views_consistent (step ev w)"
proof (cases ev)
  case ShowEnhancedView
  with showEnhancedView_inv [of "fst w" "snd w"] assms(1) show ?thesis by simp
next
  case ShowBasicView
  with showBasicView_inv [of "fst w" "snd w"] assms(1) show ?thesis by simp
next
  case (ResizeTo x y)
  from resized_inv [OF assms, where x = x and y = y] have
    "app_inv (fst w, (snd w)\<lparr>innerWidth := x, innerHeight := y\<rparr>)"
    "views_consistent (fst w, (snd w)\<lparr>innerWidth := x, innerHeight := y\<rparr>)" by simp_all
  from handleWindowResize_inv [OF this] ResizeTo show ?thesis by simp
next
  case (AnimationFrame now)
  with run_frame_inv [OF assms, of now] show ?thesis by simp
qed

lemma run_inv:
  "app_inv w \<Longrightarrow> views_consistent w \<Longrightarrow>
   app_inv (run evs w) \<and> views_consistent (run evs w)"
  unfolding run_def
proof (induction evs arbitrary: w)
  case Nil
  then show ?case by simp
next
  case (Cons ev evs)
  from step_inv [OF Cons.prems, of ev] Cons.IH [of "step ev w"]
  show ?case by simp
qed

lemma bindEvents_keeps [simp]:
  "elements (bindEvents b) = elements b"
  "classList (bindEvents b) = classList b"
  "next_oid (bindEvents b) = next_oid b"
  "pending (bindEvents b) = pending b"
  "appended (bindEvents b) = appended b"
  by (simp_all add: bindEvents_def bind_if_present_def Let_def)

lemma App_inv:
  assumes "wf_page b"
  shows "app_inv (App b) \<and> views_consistent (App b)"
proof -
  let ?b1 = "b\<lparr>next_oid := next_oid b + 1\<rparr>"
  let ?r = "state_of (basic_init ''basic-scene'' (BasicScene (next_oid b)) ?b1)"
  have app: "App b = (\<lparr>basicScene = Some (fst ?r), enhancedScene = None, currentView = ''basic''\<rparr>,
                      bindEvents (snd ?r))"
    by (simp add: App_def initializeBasicScene_def new_BasicScene_def Let_def split_beta)
  from assms have "''basic-scene'' \<in> elements ?b1" by (simp add: wf_page_def)
  from basic_init_present(1) [OF this] have "renderer (fst ?r) \<noteq> None" .
  with assms show ?thesis
    unfolding app app_inv_def views_consistent_def
    by (simp add: wf_page_def shown_def)
qed

section \<open>One scene object per view\<close>

lemma basic_init_appended:
  "appended (snd (state_of (basic_init containerId s b))) =
     (if containerId \<in> elements b then appended b @ [(containerId, oid s)] else appended b)"
  by (auto simp: basic_init_def basic_createScene_def basic_createCamera_def
        basic_createRenderer_def basic_createCube_def basic_addLights_def
        basic_animate_def requestAnimationFrame_def library_def Let_def)

lemma enhanced_init_appended:
  "appended (snd (state_of (enhanced_init containerId s b))) =
     (if containerId \<in> elements b then appended b @ [(containerId, oid s)] else appended b)"
  by (auto simp: enhanced_init_defs Let_def)

lemma App_instances: "instances b0 False (App b0)"
  by (simp add: instances_def App_def initializeBasicScene_def new_BasicScene_def Let_def
        split_beta basic_init_appended BasicScene_def)

lemma resumeEnhancedScene_state:
  "state_of (resumeEnhancedScene w) =
     (case enhancedScene (fst w) of
        None \<Rightarrow> w
      | Some e \<Rightarrow> ((fst w)\<lparr>enhancedScene := Some (fst (state_of (enhanced_resume e (snd w))))\<rparr>,
                   snd (state_of (enhanced_resume e (snd w)))))"
  by (cases w) (auto simp: resumeEnhancedScene_def split: option.splits outcome.splits)

lemma resumeBasicScene_state:
  "state_of (resumeBasicScene w) =
     (case basicScene (fst w) of
        None \<Rightarrow> w
      | Some s \<Rightarrow> ((fst w)\<lparr>basicScene := Some (fst (state_of (basic_resume s (snd w))))\<rparr>,
                   snd (state_of (basic_resume s (snd w)))))"
  by (cases w) (auto simp: resumeBasicScene_def split: option.splits outcome.splits)

lemma showEnhancedView_state:
  "\<exists>v. showEnhancedView w =
     ((fst (state_of (resumeEnhancedScene (pauseBasicScene (initializeEnhancedScene
          (fst w, showEnhancedViewUI (hideBasicView (snd w))))))))\<lparr>currentView := v\<rparr>,
      snd (state_of (resumeEnhancedScene (pauseBasicScene (initializeEnhancedScene
          (fst w, showEnhancedViewUI (hideBasicView (snd w))))))))"
proof -
  let ?r = "resumeEnhancedScene (pauseBasicScene (initializeEnhancedScene
          (fst w, showEnhancedViewUI (hideBasicView (snd w)))))"
  show ?thesis
  proof (cases ?r)
    case (Returned w2)
    then have "showEnhancedView w = ((fst (state_of ?r))\<lparr>currentView := ''enhanced''\<rparr>, snd (state_of ?r))"
      by (simp add: showEnhancedView_def Let_def split_beta)
    then show ?thesis by blast
  next
    case (Threw w2)
    then have "showEnhancedView w = ((fst (state_of ?r))\<lparr>currentView := currentView (fst (state_of ?r))\<rparr>, snd (state_of ?r))"
      by (simp add: showEnhancedView_def Let_def split_beta)
    then show ?thesis by blast
  qed
qed

lemma showBasicView_state:
  "\<exists>v. showBasicView w =
     ((fst (state_of (resumeBasicScene (pauseEnhancedScene
          (fst w, showBasicViewUI (hideEnhancedView (snd w)))))))\<lparr>currentView := v\<rparr>,
      snd (state_of (resumeBasicScene (pauseEnhancedScene
          (fst w, showBasicViewUI (hideEnhancedView (snd w)))))))"
proof -
  let ?r = "resumeBasicScene (pauseEnhancedScene
          (fst w, showBasicViewUI (hideEnhancedView (snd w))))"
  show ?thesis
  proof (cases ?r)
    case (Returned w2)
    then have "showBasicView w = ((fst (state_of ?r))\<lparr>currentView := ''basic''\<rparr>, snd (state_of ?r))"
      by (simp add: showBasicView_def Let_def split_beta)
    then show ?thesis by blast
  next
    case (Threw w2)
    then have "showBasicView w = ((fst (state_of ?r))\<lparr>currentView := currentView (fst (state_of ?r))\<rparr>, snd (state_of ?r))"
      by (simp add: showBasicView_def Let_def split_beta)
    then show ?thesis by blast
  qed
qed

lemma instances_view [simp]:
  "instances b0 c (a\<lparr>currentView := v\<rparr>, b) = instances b0 c (a, b)"
  by (simp add: instances_def)

lemma ui_appended [simp]:
  "appended (hideBasicView b) = appended b"
  "appended (showEnhancedViewUI b) = appended b"
  "appended (hideEnhancedView b) = appended b"
  "appended (showBasicViewUI b) = appended b"
  by (simp_all add: hideBasicView_def showEnhancedViewUI_def hideEnhancedView_def
        showBasicViewUI_def classList_add_def classList_remove_def)

lemma initializeEnhancedScene_instances:
  assumes "instances b0 created w"
  shows "instances b0 True (initializeEnhancedScene w)"
proof (cases "enhancedScene (fst w)")
  case None
  with assms have c: "\<not> created" by (auto simp: instances_def split: if_splits)
  with assms None show ?thesis
    by (simp add: instances_def initializeEnhancedScene_def new_EnhancedScene_def Let_def
          split_beta enhanced_init_appended EnhancedScene_def)
next
  case (Some e)
  with assms have c: "created" by (auto simp: instances_def split: if_splits)
  with assms Some show ?thesis
    by (simp add: instances_def initializeEnhancedScene_def split_beta)
qed

lemma pauseBasicScene_instances:
  "instances b0 c w \<Longrightarrow> instances b0 c (pauseBasicScene w)"
  by (cases "basicScene (fst w)")
     (simp_all add: instances_def pauseBasicScene_def Let_def split_beta)

lemma pauseEnhancedScene_instances:
  "instances b0 c w \<Longrightarrow> instances b0 c (pauseEnhancedScene w)"
  by (cases "enhancedScene (fst w)")
     (simp_all add: instances_def pauseEnhancedScene_def Let_def split_beta)

lemma resumeEnhancedScene_instances:
  "instances b0 c w \<Longrightarrow> instances b0 c (state_of (resumeEnhancedScene w))"
  by (cases "enhancedScene (fst w)")
     (simp_all add: instances_def resumeEnhancedScene_state)

lemma resumeBasicScene_instances:
  "instances b0 c w \<Longrightarrow> instances b0 c (state_of (resumeBasicScene w))"
  by (cases "basicScene (fst w)")
     (simp_all add: instances_def resumeBasicScene_state)

lemma showEnhancedView_instances:
  assumes "instances b0 created w"
  shows "instances b0 True (showEnhancedView w)"
proof -
  from assms have "instances b0 created (fst w, showEnhancedViewUI (hideBasicView (snd w)))"
    by (simp add: instances_def)
  from resumeEnhancedScene_instances [OF pauseBasicScene_instances
         [OF initializeEnhancedScene_instances [OF this]]]
  show ?thesis
    using showEnhancedView_state [of w] by (auto simp del: fst_conv snd_conv)
qed

lemma showBasicView_instances:
  assumes "instances b0 c w"
  shows "instances b0 c (showBasicView w)"
proof -
  from assms have "instances b0 c (fst w, showBasicViewUI (hideEnhancedView (snd w)))"
    by (simp add: instances_def)
  from resumeBasicScene_instances [OF pauseEnhancedScene_instances [OF this]]
  show ?thesis
    using showBasicView_state [of w] by auto
qed

lemma handleWindowResize_instances:
  "instances b0 c w \<Longrightarrow> instances b0 c (handleWindowResize w)"
  by (cases c) (auto simp: instances_def handleWindowResize_def Let_def split_beta)

lemma animate_callback_instances:
  "instances b0 c w \<Longrightarrow> instances b0 c (animate_callback self w)"
  by (cases c) (auto simp: instances_def animate_callback_def Let_def split_beta)

lemma run_callback_instances:
  "instances b0 c w \<Longrightarrow> instances b0 c (run_callback h w)"
proof (cases "map_of (pending (snd w)) h")
  case None
  assume "instances b0 c w"
  with None show ?thesis by (simp add: run_callback_def split_beta)
next
  case (Some self)
  assume "instances b0 c w"
  then have "instances b0 c (fst w, cancelAnimationFrame h (snd w))"
    by (simp add: instances_def cancelAnimationFrame_def)
  from animate_callback_instances [OF this, of self] Some show ?thesis
    by (simp add: run_callback_def split_beta)
qed

lemma fold_run_callback_instances:
  "instances b0 c w \<Longrightarrow> instances b0 c (fold run_callback hs w)"
  by (induction hs arbitrary: w) (simp_all add: run_callback_instances)

lemma run_frame_instances:
  assumes "instances b0 c w"
  shows "instances b0 c (run_frame now w)"
proof -
  from assms have "instances b0 c (fst w, (snd w)\<lparr>clock := now\<rparr>)"
    by (simp add: instances_def)
  from fold_run_callback_instances [OF this] show ?thesis
    by (simp add: run_frame_def Let_def split_beta)
qed

lemma step_instances:
  assumes "instances b0 c w"
  shows "instances b0 (c \<or> ev = ShowEnhancedView) (step ev w)"
proof (cases ev)
  case ShowEnhancedView
  with showEnhancedView_instances [OF assms] show ?thesis by simp
next
  case ShowBasicView
  with showBasicView_instances [OF assms] show ?thesis by simp
next
  case (ResizeTo x y)
  from assms have "instances b0 c (fst w, (snd w)\<lparr>innerWidth := x, innerHeight := y\<rparr>)"
    by (simp add: instances_def)
  from handleWindowResize_instances [OF this] ResizeTo show ?thesis by simp
next
  case (AnimationFrame now)
  with run_frame_instances [OF assms, of now] show ?thesis by simp
qed

lemma run_instances:
  "instances b0 c w \<Longrightarrow> instances b0 (c \<or> ShowEnhancedView \<in> set evs) (run evs w)"
  unfolding run_def
proof (induction evs arbitrary: c w)
  case Nil
  then show ?case by simp
next
  case (Cons ev evs)
  from Cons.IH [OF step_instances [OF Cons.prems, of ev]]
  show ?case by (simp add: disj_ac eq_commute [of ShowEnhancedView])
qed

lemma showEnhancedView_resumes:
  "case enhancedScene (fst (showEnhancedView w)) of None \<Rightarrow> False | Some e \<Rightarrow> isAnimating e"
proof -
  let ?w2 = "pauseBasicScene (initializeEnhancedScene
          (fst w, showEnhancedViewUI (hideBasicView (snd w))))"
  have "enhancedScene (fst ?w2) \<noteq> None"
    by (auto simp: initializeEnhancedScene_def new_EnhancedScene_def Let_def split_beta
             split: option.splits)
  then obtain e where "enhancedScene (fst ?w2) = Some e" by auto
  then have "enhancedScene (fst (state_of (resumeEnhancedScene ?w2)))
      = Some (fst (state_of (enhanced_resume e (snd ?w2))))"
    by (simp add: resumeEnhancedScene_state)
  with showEnhancedView_state [of w] show ?thesis by auto
qed

text \<open>
  C5. After \<open>new App()\<close> and any sequence of events, the basic scene is still the object
  constructed at startup; the enhanced scene is absent until the first
  \<open>showEnhancedView\<close> and from then on the one object constructed second; no further
  scene object is ever constructed (\<open>next_oid\<close> counts the constructions, and \<open>init\<close>
  runs only on a just constructed object); each container holds the canvas of its one
  \<open>init\<close>; and every \<open>showEnhancedView\<close> leaves the enhanced scene resumed.
\<close>

theorem one_instance_per_view:
  "map_option oid (basicScene (fst (run evs (App b0)))) = Some (next_oid b0)
   \<and> map_option oid (enhancedScene (fst (run evs (App b0))))
       = (if ShowEnhancedView \<in> set evs then Some (next_oid b0 + 1) else None)
   \<and> next_oid (snd (run evs (App b0)))
       = next_oid b0 + (if ShowEnhancedView \<in> set evs then 2 else 1)
   \<and> appended (snd (run evs (App b0))) =
       appended b0
       @ (if ''basic-scene'' \<in> elements b0 then [(''basic-scene'', next_oid b0)] else [])
       @ (if ShowEnhancedView \<in> set evs \<and> ''enhanced-scene'' \<in> elements b0
          then [(''enhanced-scene'', next_oid b0 + 1)] else [])
   \<and> (case enhancedScene (fst (showEnhancedView (run evs (App b0)))) of
         None \<Rightarrow> False | Some e \<Rightarrow> isAnimating e)"
  using run_instances [OF App_instances, of b0 evs] showEnhancedView_resumes [of "run evs (App b0)"]
  by (simp add: instances_def)

section \<open>The controls of the enhanced view\<close>

lemma steady_constructed: "steady (EnhancedScene self)"
  by (simp add: steady_def EnhancedScene_def)

lemma enhanced_animate_cube:
  "cube (fst (state_of (enhanced_animate s b))) =
     (if isAnimating s
      then map_option (\<lambda>c.
             (let c1 = spin (rotationSpeed s) c;
                  c2 = c1\<lparr>position := (position c1)\<lparr>vy := sin (clock b * 0.001 * 0.5) * 0.3\<rparr>\<rparr>
              in case controls s of
                   None \<Rightarrow> c2
                 | Some k \<Rightarrow> if enabled k then c2
                             else follow_mouse (targetRotationX s) (targetRotationY s) c2))
           (cube s)
      else cube s)"
  by (auto simp: enhanced_animate_def requestAnimationFrame_def library_def Let_def
           split: option.splits)

lemma enhanced_init_steady:
  "steady s \<Longrightarrow> steady (fst (state_of (enhanced_init containerId s b)))"
  by (auto simp: steady_def enhanced_init_defs enhanced_animate_cube Let_def split: option.splits)

lemma enhanced_step_steady:
  assumes "steady s"
  shows "steady (fst (enhanced_step pf op s b))"
proof (cases op)
  case (Init containerId)
  with enhanced_init_steady [OF assms] show ?thesis by simp
next
  case Animate
  with assms show ?thesis by (auto simp: steady_def split: option.splits)
next
  case Pause
  with assms show ?thesis by (auto simp: steady_def split: option.splits)
next
  case Resume
  with assms show ?thesis by (auto simp: steady_def split: option.splits)
next
  case Resize
  with assms show ?thesis by (auto simp: steady_def split: option.splits)
next
  case Dispose
  with assms show ?thesis
    by (auto simp: steady_def enhanced_dispose_def split_beta Let_def split: option.splits)
next
  case (SpeedInput v)
  with assms show ?thesis by (simp add: steady_def on_rotation_speed_def)
next
  case (ColorInput v)
  with assms show ?thesis by (auto simp: steady_def on_cube_color_def split: option.splits)
next
  case (WireframeToggle checked)
  with assms show ?thesis by (auto simp: steady_def on_wireframe_def split: option.splits)
next
  case (ScaleInputOp v)
  with assms show ?thesis by (auto simp: steady_def on_scale_def Let_def split: option.splits)
next
  case (MouseMoveOp nx ny)
  with assms show ?thesis by (simp add: steady_def on_mousemove_def Let_def)
next
  case Click
  with assms show ?thesis by (auto simp: steady_def on_click_def Let_def split: option.splits)
next
  case (PulseTimeout originalScale)
  with assms show ?thesis by (auto simp: steady_def on_pulse_timeout_def split: option.splits)
qed

lemma enhanced_step_speed:
  "speed_kept op \<Longrightarrow> rotationSpeed (fst (enhanced_step pf op s b)) = rotationSpeed s"
  by (cases op)
     (auto simp: enhanced_dispose_def on_cube_color_def on_wireframe_def on_scale_def
        on_mousemove_def on_click_def on_pulse_timeout_def enhanced_resume_def split_beta
        Let_def split: option.splits)

lemma steady_tick:
  assumes "steady s" and "isAnimating s" and "cube s = Some c"
  shows "\<exists>s' b' c'. enhanced_animate s b = Returned (s', b') \<and> cube s' = Some c'
           \<and> vx (rotation c') = vx (rotation c) + rotationSpeed s
           \<and> vy (rotation c') = vy (rotation c) + rotationSpeed s
           \<and> vz (rotation c') = vz (rotation c)
           \<and> calls b' = calls b @ [ControlsUpdate (oid s), Render (oid s)]"
  using assms
  by (auto simp: steady_def enhanced_animate_def enhanced_animate_tail_def
        requestAnimationFrame_def library_def spin_def Let_def split: option.splits)

section \<open>The earlier revision on a page with every element\<close>

lemma legacy_App_full:
  assumes "full_page b"
  shows "legacy_App b = Returned (App b)"
proof -
  from assms have c: "''basic-scene'' \<in> elements b" "''enhanced-btn'' \<in> elements b"
    "''back-btn'' \<in> elements b"
    by (simp_all add: full_page_def wf_page_def)
  let ?b1 = "b\<lparr>next_oid := next_oid b + 1\<rparr>"
  have i: "legacy_basic_init ''basic-scene'' (BasicScene (next_oid b)) ?b1
       = basic_init ''basic-scene'' (BasicScene (next_oid b)) ?b1"
    using c(1) by (simp add: legacy_basic_init_def basic_init_def)
  from basic_animate_returns obtain s1 b2 where
    r: "basic_init ''basic-scene'' (BasicScene (next_oid b)) ?b1 = Returned (s1, b2)"
    using c(1)
    by (auto simp: basic_init_def basic_createScene_def basic_createCamera_def
          basic_createRenderer_def basic_createCube_def basic_addLights_def
          basic_animate_def requestAnimationFrame_def library_def Let_def)
  have e: "elements b2 = elements b"
    using basic_init_keeps(2) [of "''basic-scene''" "BasicScene (next_oid b)" ?b1]
    unfolding r by simp
  have l: "legacy_bindEvents b2 = Returned (bindEvents b2)"
    using c(2,3) e by (simp add: legacy_bindEvents_def bindEvents_def bind_def bind_if_present_def Let_def)
  show ?thesis
    using i r l
    by (simp add: legacy_App_def App_def initializeBasicScene_def new_BasicScene_def Let_def)
qed

lemma classList_elements [simp]:
  "elements (classList_remove el c b) = elements b"
  "elements (classList_add el c b) = elements b"
  by (simp_all add: classList_add_def classList_remove_def)

lemma enhanced_init_returns:
  assumes "''enhanced-scene'' \<in> elements b" and "''rotation-speed'' \<in> elements b"
    and "''cube-color'' \<in> elements b" and "''wireframe'' \<in> elements b"
    and "''scale'' \<in> elements b"
  shows "\<exists>v. enhanced_init ''enhanced-scene'' (EnhancedScene self) b = Returned v"
  using assms
  by (simp add: enhanced_init_defs enhanced_animate_def enhanced_animate_tail_def
        requestAnimationFrame_def EnhancedScene_def Let_def)

lemma legacy_showEnhancedView_returns:
  assumes "app_inv w" and "''basic-view'' \<in> elements (snd w)" and "''enhanced-view'' \<in> elements (snd w)"
    and "''enhanced-scene'' \<in> elements (snd w)" and "''rotation-speed'' \<in> elements (snd w)"
    and "''cube-color'' \<in> elements (snd w)" and "''wireframe'' \<in> elements (snd w)"
    and "''scale'' \<in> elements (snd w)"
  shows "legacy_showEnhancedView w = Returned (showEnhancedView w)"
proof -
  obtain a b where w: "w = (a, b)" by (cases w)
  let ?b2 = "classList_add ''enhanced-view'' ''active'' (classList_remove ''basic-view'' ''active'' b)"
  have ui: "showEnhancedViewUI (hideBasicView b) = ?b2"
    using assms(2,3) w
    by (simp add: showEnhancedViewUI_def hideBasicView_def)
  have el: "elements ?b2 = elements b"
    by simp
  let ?w1 = "initializeEnhancedScene (a, ?b2)"
  have init: "(case enhancedScene a of
                 Some e \<Rightarrow> Returned (a, ?b2)
               | None \<Rightarrow>
                   let (s, b3) = new_EnhancedScene ?b2
                   in (case enhanced_init ''enhanced-scene'' s b3 of
                         Returned (s1, b4) \<Rightarrow> Returned (a\<lparr>enhancedScene := Some s1\<rparr>, b4)
                       | Threw (s1, b4) \<Rightarrow> Threw (a\<lparr>enhancedScene := Some s1\<rparr>, b4)))
              = Returned ?w1"
  proof (cases "enhancedScene a")
    case (Some e)
    then show ?thesis by (simp add: initializeEnhancedScene_def)
  next
    case None
    let ?b3 = "?b2\<lparr>next_oid := next_oid ?b2 + 1\<rparr>"
    from assms(4-8) w el have "''enhanced-scene'' \<in> elements ?b3" "''rotation-speed'' \<in> elements ?b3"
      "''cube-color'' \<in> elements ?b3" "''wireframe'' \<in> elements ?b3" "''scale'' \<in> elements ?b3"
      by simp_all
    from enhanced_init_returns [OF this, of "next_oid ?b2"]
    obtain v where "enhanced_init ''enhanced-scene'' (EnhancedScene (next_oid ?b2)) ?b3 = Returned v"
      by auto
    with None show ?thesis
      by (cases v) (simp add: initializeEnhancedScene_def new_EnhancedScene_def Let_def)
  qed
  from assms(1) w have "case enhancedScene a of None \<Rightarrow> True | Some e \<Rightarrow> sound e"
    by (simp add: app_inv_def)
  from initializeEnhancedScene_sound [OF this, of ?b2]
  obtain e where e: "enhancedScene (fst ?w1) = Some e" "sound e" by auto
  then have "enhancedScene (fst (pauseBasicScene ?w1)) = Some e" by simp
  from resumeEnhancedScene_sound [OF this e(2), of "snd (pauseBasicScene ?w1)"]
  obtain a2 b5 where r: "resumeEnhancedScene (pauseBasicScene ?w1) = Returned (a2, b5)"
    by auto
  have "legacy_showEnhancedView (a, b) = Returned (a2\<lparr>currentView := ''enhanced''\<rparr>, b5)"
    using assms(2,3) w init r
    by (simp add: legacy_showEnhancedView_def Let_def)
  moreover have "showEnhancedView (a, b) = (a2\<lparr>currentView := ''enhanced''\<rparr>, b5)"
    using ui r by (simp add: showEnhancedView_def Let_def)
  ultimately show ?thesis by (simp add: w)
qed

lemma legacy_showBasicView_returns:
  assumes "app_inv w" and "''basic-view'' \<in> elements (snd w)" and "''enhanced-view'' \<in> elements (snd w)"
  shows "legacy_showBasicView w = Returned (showBasicView w)"
proof -
  obtain a b where w: "w = (a, b)" by (cases w)
  let ?b2 = "classList_add ''basic-view'' ''active'' (classList_remove ''enhanced-view'' ''active'' b)"
  have ui: "showBasicViewUI (hideEnhancedView b) = ?b2"
    using assms(2,3) w
    by (simp add: showBasicViewUI_def hideEnhancedView_def)
  from assms(1) w obtain s where s: "basicScene a = Some s" "renderer s \<noteq> None"
    by (auto simp: app_inv_def split: option.splits)
  then have "basicScene (fst (pauseEnhancedScene (a, ?b2))) = Some s" by simp
  from resumeBasicScene_sound [OF this s(2), of "snd (pauseEnhancedScene (a, ?b2))"]
  obtain a2 b3 where r: "resumeBasicScene (pauseEnhancedScene (a, ?b2)) = Returned (a2, b3)"
    by auto
  have "legacy_showBasicView (a, b) = Returned (a2\<lparr>currentView := ''basic''\<rparr>, b3)"
    using assms(2,3) w r
    by (simp add: legacy_showBasicView_def Let_def)
  moreover have "showBasicView (a, b) = (a2\<lparr>currentView := ''basic''\<rparr>, b3)"
    using ui r by (simp add: showBasicView_def Let_def)
  ultimately show ?thesis by (simp add: w)
qed

lemma legacy_step_full:
  assumes "full_page b0" and "app_inv w" and "elements (snd w) = elements b0"
  shows "legacy_step ev w = Returned (step ev w)"
proof (cases ev)
  case ShowEnhancedView
  with legacy_showEnhancedView_returns [OF assms(2)] assms(1,3) show ?thesis
    by (simp add: full_page_def wf_page_def)
next
  case ShowBasicView
  with legacy_showBasicView_returns [OF assms(2)] assms(1,3) show ?thesis
    by (simp add: full_page_def wf_page_def)
qed simp_all

lemma legacy_run_full:
  assumes "full_page b0"
  shows "app_inv w \<Longrightarrow> views_consistent w \<Longrightarrow> instances b0 c w \<Longrightarrow>
         legacy_run evs w = run evs w"
  unfolding legacy_run_def run_def
proof (induction evs arbitrary: w c)
  case Nil
  then show ?case by simp
next
  case (Cons ev evs)
  from Cons.prems(3) have el: "elements (snd w) = elements b0" by (simp add: instances_def)
  from legacy_step_full [OF assms Cons.prems(1) el, of ev]
  have s: "state_of (legacy_step ev w) = step ev w" by simp
  from step_inv [OF Cons.prems(1,2), of ev] step_instances [OF Cons.prems(3), of ev]
    Cons.IH [of "step ev w"] s
  show ?case by simp
qed

text \<open>
  C2, as amended. On a page that has both view panels and the container of the basic
  scene, the basic view shown at first: after \<open>new App()\<close> and any sequence of view
  switches (and of resizes and animation frames between them) exactly one panel has the
  class \<open>active\<close>, it is the one \<open>currentView\<close> names, and the scene of the other view has
  \<open>isAnimating\<close> false. On a page that has every element the code looks up, the earlier
  revision without guards starts without throwing and satisfies the same.
\<close>

theorem view_switch_invariant:
  assumes "wf_page b0"
  shows "views_consistent (run evs (App b0))
         \<and> (full_page b0 \<longrightarrow>
              (\<exists>w. legacy_App b0 = Returned w \<and> views_consistent (legacy_run evs w)))"
proof -
  from App_inv [OF assms] have i: "app_inv (App b0)" "views_consistent (App b0)" by simp_all
  from run_inv [OF i, of evs] have v: "views_consistent (run evs (App b0))" by simp
  have "legacy_App b0 = Returned (App b0) \<and> views_consistent (legacy_run evs (App b0))"
    if f: "full_page b0"
    using legacy_App_full [OF f] legacy_run_full [OF f i App_instances, of evs] v by simp
  with v show ?thesis by blast
qed

section \<open>Listeners and the events dispatched to them\<close>

subsection \<open>Listeners are bound by \<open>init\<close> and \<open>bindEvents\<close> only\<close>

lemma basic_listeners [simp]:
  "listeners (snd (state_of (basic_animate s b))) = listeners b"
  "listeners (snd (basic_pause s b)) = listeners b"
  "listeners (snd (state_of (basic_resume s b))) = listeners b"
  "listeners (snd (basic_onWindowResize s b)) = listeners b"
  by (auto simp: basic_animate_def basic_pause_def basic_resume_def basic_onWindowResize_def
        requestAnimationFrame_def cancelAnimationFrame_def library_def Let_def
      split: option.splits)

lemma enhanced_listeners [simp]:
  "listeners (snd (state_of (enhanced_animate e b))) = listeners b"
  "listeners (snd (enhanced_pause e b)) = listeners b"
  "listeners (snd (state_of (enhanced_resume e b))) = listeners b"
  "listeners (snd (enhanced_onWindowResize e b)) = listeners b"
  "listeners (snd (enhanced_dispose e b)) = listeners b"
  "listeners (snd (state_of (on_click e b))) = listeners b"
  "elements (snd (enhanced_dispose e b)) = elements b"
  "elements (snd (state_of (on_click e b))) = elements b"
  by (auto simp: enhanced_animate_def enhanced_animate_tail_def enhanced_pause_def
        enhanced_resume_def enhanced_onWindowResize_def enhanced_dispose_def on_click_def
        requestAnimationFrame_def cancelAnimationFrame_def library_def Let_def split_beta
      split: option.splits)

lemma ui_listeners [simp]:
  "listeners (hideBasicView b) = listeners b"
  "listeners (showEnhancedViewUI b) = listeners b"
  "listeners (hideEnhancedView b) = listeners b"
  "listeners (showBasicViewUI b) = listeners b"
  by (simp_all add: hideBasicView_def showEnhancedViewUI_def hideEnhancedView_def
        showBasicViewUI_def classList_add_def classList_remove_def)

lemmas handler_defs = on_rotation_speed_def on_cube_color_def on_wireframe_def on_scale_def
  on_mousemove_def on_click_def on_pulse_timeout_def

lemma enhanced_dispose_scene [simp]:
  "fst (enhanced_dispose e b) = e\<lparr>isAnimating := False\<rparr>"
  by (simp add: enhanced_dispose_def split_beta Let_def)

lemma enhanced_step_oid:
  "\<forall>c. op \<noteq> Init c \<Longrightarrow> oid (fst (enhanced_step pf op e b)) = oid e"
  by (cases op) (auto simp: handler_defs Let_def split: option.splits)

lemma enhanced_step_listeners:
  "\<forall>c. op \<noteq> Init c \<Longrightarrow> listeners (snd (enhanced_step pf op e b)) = listeners b"
  by (cases op) (auto simp: handler_defs Let_def split: option.splits)

lemma enhanced_step_elements:
  "\<forall>c. op \<noteq> Init c \<Longrightarrow> elements (snd (enhanced_step pf op e b)) = elements b"
  by (cases op) (auto simp: handler_defs Let_def split: option.splits)

lemma enhanced_step_cube:
  "\<forall>c. op \<noteq> Init c \<Longrightarrow> (cube (fst (enhanced_step pf op e b)) = None) = (cube e = None)"
  by (cases op) (auto simp: handler_defs Let_def split: option.splits)

lemma enhanced_step_tuned:
  assumes "tuned r e" and "\<forall>c. op \<noteq> Init c" and "r \<noteq> None \<longrightarrow> speed_kept op"
  shows "tuned r (fst (enhanced_step pf op e b))"
proof -
  from assms(1) have "steady (fst (enhanced_step pf op e b))"
    by (simp add: tuned_def enhanced_step_steady)
  moreover from assms(1,2) have "cube (fst (enhanced_step pf op e b)) \<noteq> None"
    by (simp add: tuned_def enhanced_step_cube)
  moreover have "case r of None \<Rightarrow> True | Some x \<Rightarrow> rotationSpeed (fst (enhanced_step pf op e b)) = x"
  proof (cases r)
    case None
    then show ?thesis by simp
  next
    case (Some x)
    with assms(1,3) show ?thesis by (simp add: tuned_def enhanced_step_speed)
  qed
  ultimately show ?thesis by (simp add: tuned_def)
qed

text \<open>\<open>init\<close> of a fresh enhanced scene on a page that has its container and its controls.\<close>

lemma enhanced_init_wired:
  assumes "''enhanced-scene'' \<in> elements b" and "''rotation-speed'' \<in> elements b"
    and "''cube-color'' \<in> elements b" and "''wireframe'' \<in> elements b"
    and "''scale'' \<in> elements b"
  shows "\<exists>e b'. enhanced_init ''enhanced-scene'' (EnhancedScene self) b = Returned (e, b')
           \<and> listeners b' = listeners b @ scene_listeners self
           \<and> tuned None e \<and> isAnimating e \<and> oid e = self \<and> elements b' = elements b"
  using assms
  by (simp add: enhanced_init_defs enhanced_animate_def enhanced_animate_tail_def
        requestAnimationFrame_def EnhancedScene_def scene_listeners_def tuned_def steady_def
        Let_def)

lemma bindEvents_listeners:
  "listeners b = [] \<Longrightarrow> l \<in> set (listeners (bindEvents b)) \<Longrightarrow>
     snd (snd l) \<in> {EnhancedBtnClick, BackBtnClick, WindowResizeHandler}
     \<and> fst l \<in> {''enhanced-btn'', ''back-btn'', ''window''}"
  by (auto simp: bindEvents_def bind_if_present_def Let_def split: if_splits)

subsection \<open>The page keeps its listeners and the enhanced scene its cube\<close>

lemma wired_enhanced:
  assumes "wired b0 r w" and "enhancedScene (fst w) = Some e" and "enhancedScene a' = Some e'"
    and "tuned r e'" and "oid e' = oid e"
    and "listeners b' = listeners (snd w)" and "elements b' = elements (snd w)"
  shows "wired b0 r (a', b')"
  using assms by (simp add: wired_def)

lemma wired_other:
  assumes "wired b0 r w" and "enhancedScene a' = enhancedScene (fst w)"
    and "listeners b' = listeners (snd w)" and "elements b' = elements (snd w)"
  shows "wired b0 r (a', b')"
  using assms by (simp add: wired_def)

lemma wired_scene_op:
  assumes "wired b0 r (a, b)" and "enhancedScene a = Some e"
    and "\<forall>c. op \<noteq> Init c" and "r \<noteq> None \<longrightarrow> speed_kept op"
  shows "wired b0 r (a\<lparr>enhancedScene := Some (fst (enhanced_step pf op e b))\<rparr>,
                     snd (enhanced_step pf op e b))"
proof (rule wired_enhanced [OF assms(1), of e])
  from assms(1,2) have "tuned r e" by (simp add: wired_def)
  from enhanced_step_tuned [OF this assms(3,4)]
  show "tuned r (fst (enhanced_step pf op e b))" .
qed (use assms in \<open>simp_all add: enhanced_step_oid enhanced_step_listeners enhanced_step_elements\<close>)

lemma app_listeners [simp]:
  "listeners (snd (pauseBasicScene w)) = listeners (snd w)"
  "listeners (snd (pauseEnhancedScene w)) = listeners (snd w)"
  "listeners (snd (state_of (resumeBasicScene w))) = listeners (snd w)"
  "listeners (snd (state_of (resumeEnhancedScene w))) = listeners (snd w)"
  "elements (snd (state_of (resumeBasicScene w))) = elements (snd w)"
  "elements (snd (state_of (resumeEnhancedScene w))) = elements (snd w)"
  "enhancedScene (fst (state_of (resumeBasicScene w))) = enhancedScene (fst w)"
  by (auto simp: pauseBasicScene_def pauseEnhancedScene_def resumeBasicScene_state
        resumeEnhancedScene_state split_beta Let_def split: option.splits)

lemma pauseBasicScene_wired: "wired b0 r w \<Longrightarrow> wired b0 r (pauseBasicScene w)"
  using wired_other [of b0 r w "fst (pauseBasicScene w)" "snd (pauseBasicScene w)"]
  by simp

lemma resumeBasicScene_wired: "wired b0 r w \<Longrightarrow> wired b0 r (state_of (resumeBasicScene w))"
  using wired_other [of b0 r w "fst (state_of (resumeBasicScene w))"
                       "snd (state_of (resumeBasicScene w))"]
  by simp

lemma pauseEnhancedScene_wired:
  assumes "wired b0 r w"
  shows "wired b0 r (pauseEnhancedScene w)"
proof (cases "enhancedScene (fst w)")
  case None
  then have "pauseEnhancedScene w = w"
    by (simp add: pauseEnhancedScene_def split_beta)
  with assms show ?thesis by simp
next
  case (Some e)
  from wired_scene_op [of b0 r "fst w" "snd w" e Pause] assms Some
  show ?thesis by (simp add: pauseEnhancedScene_def split_beta)
qed

lemma resumeEnhancedScene_wired:
  assumes "wired b0 r w"
  shows "wired b0 r (state_of (resumeEnhancedScene w))"
proof (cases "enhancedScene (fst w)")
  case None
  with assms show ?thesis by (simp add: resumeEnhancedScene_state)
next
  case (Some e)
  from wired_scene_op [of b0 r "fst w" "snd w" e Resume] assms Some
  show ?thesis by (simp add: resumeEnhancedScene_state)
qed

lemma initializeEnhancedScene_wired:
  assumes "controls_page b0" and "wired b0 r w"
  shows "wired b0 r (initializeEnhancedScene w)"
proof (cases "enhancedScene (fst w)")
  case (Some e)
  then have "initializeEnhancedScene w = w"
    by (simp add: initializeEnhancedScene_def split_beta)
  with assms show ?thesis by simp
next
  case None
  with assms(2) have r: "r = None" by (simp add: wired_def)
  let ?b1 = "(snd w)\<lparr>next_oid := next_oid (snd w) + 1\<rparr>"
  from assms have "''enhanced-scene'' \<in> elements ?b1" "''rotation-speed'' \<in> elements ?b1"
    "''cube-color'' \<in> elements ?b1" "''wireframe'' \<in> elements ?b1" "''scale'' \<in> elements ?b1"
    by (simp_all add: controls_page_def wired_def)
  from enhanced_init_wired [OF this, of "next_oid (snd w)"]
  obtain e b' where i: "enhanced_init ''enhanced-scene'' (EnhancedScene (next_oid (snd w))) ?b1
        = Returned (e, b')"
    and l: "listeners b' = listeners (snd w) @ scene_listeners (next_oid (snd w))"
    and e: "tuned None e" "oid e = next_oid (snd w)" "elements b' = elements (snd w)"
    by auto
  have "initializeEnhancedScene w = ((fst w)\<lparr>enhancedScene := Some e\<rparr>, b')"
    using None i
    by (simp add: initializeEnhancedScene_def new_EnhancedScene_def split_beta Let_def)
  with assms(2) None l e r show ?thesis by (simp add: wired_def)
qed

lemma wired_view [simp]: "wired b0 r (a\<lparr>currentView := v\<rparr>, b) = wired b0 r (a, b)"
  by (simp add: wired_def)

lemma showEnhancedView_wired:
  assumes "controls_page b0" and "wired b0 r w"
  shows "wired b0 r (showEnhancedView w)"
proof -
  from assms(2) have "wired b0 r (fst w, showEnhancedViewUI (hideBasicView (snd w)))"
    by (simp add: wired_def)
  from resumeEnhancedScene_wired [OF pauseBasicScene_wired
         [OF initializeEnhancedScene_wired [OF assms(1) this]]]
  show ?thesis using showEnhancedView_state [of w] by auto
qed

lemma showBasicView_wired:
  assumes "wired b0 r w"
  shows "wired b0 r (showBasicView w)"
proof -
  from assms have "wired b0 r (fst w, showBasicViewUI (hideEnhancedView (snd w)))"
    by (simp add: wired_def)
  from resumeBasicScene_wired [OF pauseEnhancedScene_wired [OF this]]
  show ?thesis using showBasicView_state [of w] by auto
qed

lemma handleWindowResize_wired:
  assumes "wired b0 r w"
  shows "wired b0 r (handleWindowResize w)"
proof (cases "currentView (fst w) = ''basic'' \<and> basicScene (fst w) \<noteq> None")
  case True
  with wired_other [OF assms, of "fst (handleWindowResize w)" "snd (handleWindowResize w)"]
  show ?thesis by (simp add: handleWindowResize_def split_beta)
next
  case False
  show ?thesis
  proof (cases "currentView (fst w) = ''enhanced'' \<and> enhancedScene (fst w) \<noteq> None")
    case True
    then obtain e where e: "enhancedScene (fst w) = Some e" by auto
    from wired_scene_op [of b0 r "fst w" "snd w" e Resize] assms e True False
    show ?thesis by (simp add: handleWindowResize_def split_beta)
  next
    case n: False
    with False have "handleWindowResize w = w"
      by (auto simp: handleWindowResize_def split_beta)
    with assms show ?thesis by simp
  qed
qed

lemma animate_callback_wired:
  assumes "wired b0 r w"
  shows "wired b0 r (animate_callback self w)"
proof (cases "map_option oid (basicScene (fst w)) = Some self")
  case True
  with wired_other [OF assms, of "fst (animate_callback self w)" "snd (animate_callback self w)"]
  show ?thesis by (simp add: animate_callback_def split_beta)
next
  case False
  show ?thesis
  proof (cases "map_option oid (enhancedScene (fst w)) = Some self")
    case True
    then obtain e where e: "enhancedScene (fst w) = Some e" by auto
    from wired_scene_op [of b0 r "fst w" "snd w" e Animate] assms e True False
    show ?thesis by (auto simp: animate_callback_def split_beta)
  next
    case n: False
    with False have "animate_callback self w = w"
      by (auto simp: animate_callback_def split_beta)
    with assms show ?thesis by simp
  qed
qed

lemma run_callback_wired:
  assumes "wired b0 r w"
  shows "wired b0 r (run_callback h w)"
proof (cases "map_of (pending (snd w)) h")
  case None
  with assms show ?thesis by (simp add: run_callback_def split_beta)
next
  case (Some self)
  from assms have "wired b0 r (fst w, cancelAnimationFrame h (snd w))"
    by (simp add: wired_def cancelAnimationFrame_def)
  from animate_callback_wired [OF this, of self] Some show ?thesis
    by (simp add: run_callback_def split_beta)
qed

lemma run_frame_wired:
  assumes "wired b0 r w"
  shows "wired b0 r (run_frame now w)"
proof -
  have f: "wired b0 r v \<Longrightarrow> wired b0 r (fold run_callback hs v)" for hs v
    by (induction hs arbitrary: v) (simp_all add: run_callback_wired)
  from assms have "wired b0 r (fst w, (snd w)\<lparr>clock := now\<rparr>)"
    by (simp add: wired_def)
  from f [OF this] show ?thesis by (simp add: run_frame_def split_beta Let_def)
qed

lemma step_wired:
  assumes "controls_page b0" and "wired b0 r w"
  shows "wired b0 r (step ev w)"
proof (cases ev)
  case ShowEnhancedView
  with showEnhancedView_wired [OF assms] show ?thesis by simp
next
  case ShowBasicView
  with showBasicView_wired [OF assms(2)] show ?thesis by simp
next
  case (ResizeTo x y)
  from assms(2) have "wired b0 r (fst w, (snd w)\<lparr>innerWidth := x, innerHeight := y\<rparr>)"
    by (simp add: wired_def)
  from handleWindowResize_wired [OF this] ResizeTo show ?thesis by simp
next
  case (AnimationFrame now)
  with run_frame_wired [OF assms(2), of now] show ?thesis by simp
qed

subsection \<open>Events dispatched to the bound listeners\<close>

lemma on_enhanced_wired:
  assumes "wired b0 r w" and "\<forall>c. op \<noteq> Init c" and "r \<noteq> None \<longrightarrow> speed_kept op"
  shows "wired b0 r (on_enhanced self (enhanced_step pf op) w)"
proof (cases "enhancedScene (fst w)")
  case None
  with assms(1) show ?thesis by (simp add: on_enhanced_def split_beta)
next
  case (Some e)
  from wired_scene_op [of b0 r "fst w" "snd w" e op pf] assms Some
  show ?thesis by (simp add: on_enhanced_def split_beta)
qed

lemma handler_as_op:
  "(\<lambda>e b. (on_rotation_speed pf v e, b)) = enhanced_step pf (SpeedInput v)"
  "(\<lambda>e b. (state_of (on_cube_color v e), b)) = enhanced_step pf (ColorInput v)"
  "(\<lambda>e b. (state_of (on_wireframe c e), b)) = enhanced_step pf (WireframeToggle c)"
  "(\<lambda>e b. (state_of (on_scale pf v e), b)) = enhanced_step pf (ScaleInputOp v)"
  "(\<lambda>e b. (on_mousemove x y e, b)) = enhanced_step pf (MouseMoveOp x y)"
  "(\<lambda>e b. state_of (on_click e b)) = enhanced_step pf Click"
  "(\<lambda>e b. (state_of (on_pulse_timeout k e), b)) = enhanced_step pf (PulseTimeout k)"
  by (intro ext, simp)+

lemma run_closure_wired:
  assumes "controls_page b0" and "wired b0 r w"
    and "r \<noteq> None \<longrightarrow> (\<forall>self. f \<noteq> RotationSpeedInput self)"
  shows "wired b0 r (run_closure pf f d w)"
proof (cases f)
  case EnhancedBtnClick
  with showEnhancedView_wired [OF assms(1,2)] show ?thesis by simp
next
  case BackBtnClick
  with showBasicView_wired [OF assms(2)] show ?thesis by simp
next
  case WindowResizeHandler
  with handleWindowResize_wired [OF assms(2)] show ?thesis by simp
next
  case (RotationSpeedInput self)
  with assms(3) have "r = None" by auto
  with on_enhanced_wired [OF assms(2), of "SpeedInput (target_value d)" self pf] RotationSpeedInput
  show ?thesis by (simp add: handler_as_op [symmetric])
next
  case (CubeColorInput self)
  with on_enhanced_wired [OF assms(2), of "ColorInput (target_value d)" self pf]
  show ?thesis by (simp add: handler_as_op [symmetric])
next
  case (WireframeChange self)
  with on_enhanced_wired [OF assms(2), of "WireframeToggle (target_checked d)" self pf]
  show ?thesis by (simp add: handler_as_op [symmetric])
next
  case (ScaleInput self)
  with on_enhanced_wired [OF assms(2), of "ScaleInputOp (target_value d)" self pf]
  show ?thesis by (simp add: handler_as_op [symmetric])
next
  case (MouseMove self)
  with on_enhanced_wired [OF assms(2), of "MouseMoveOp (pointer_x d) (pointer_y d)" self pf]
  show ?thesis by (simp add: handler_as_op [symmetric])
next
  case (CanvasClick self)
  with on_enhanced_wired [OF assms(2), of Click self pf]
  show ?thesis by (simp add: handler_as_op [symmetric])
qed

lemma fold_run_closure_wired:
  assumes "controls_page b0"
  shows "wired b0 r w \<Longrightarrow> r \<noteq> None \<longrightarrow> (\<forall>self. RotationSpeedInput self \<notin> set fs) \<Longrightarrow>
         wired b0 r (fold (\<lambda>f. run_closure pf f d) fs w)"
proof (induction fs arbitrary: w)
  case Nil
  then show ?case by simp
next
  case (Cons f fs)
  from Cons.prems(2) have "r \<noteq> None \<longrightarrow> (\<forall>self. f \<noteq> RotationSpeedInput self)" by auto
  from run_closure_wired [OF assms Cons.prems(1) this, of pf d] Cons.IH Cons.prems(2)
  show ?case by simp
qed

text \<open>The listeners bound for an event, on a page wired as above.\<close>

lemma app_listeners_elsewhere:
  assumes "listeners b0 = []" and "t \<notin> {''enhanced-btn'', ''back-btn'', ''window''}"
  shows "filter (\<lambda>l. fst l = t \<and> fst (snd l) = ty) (listeners (bindEvents b0)) = []"
  using assms by (auto simp: bindEvents_def bind_if_present_def Let_def)

lemma app_listeners_closures:
  assumes "listeners b0 = []"
  shows "RotationSpeedInput self \<notin> (\<lambda>l. snd (snd l)) ` set (listeners (bindEvents b0))"
  using assms by (auto simp: bindEvents_def bind_if_present_def Let_def)

lemma speed_closure_bound:
  assumes "controls_page b0" and "wired b0 r w"
    and "RotationSpeedInput self \<in> set (bound_closures d (snd w))"
  shows "ev_target d = ''rotation-speed'' \<and> ev_type d = ''input''"
proof -
  from assms(1) have l0: "listeners b0 = []" by (simp add: controls_page_def)
  from assms(3) obtain l where l: "l \<in> set (listeners (snd w))" "snd (snd l) = RotationSpeedInput self"
    "fst l = ev_target d" "fst (snd l) = ev_type d"
    by (auto simp: bound_closures_def)
  from l(1) assms(2) have "l \<in> set (listeners (bindEvents b0))
      \<or> (\<exists>e. enhancedScene (fst w) = Some e \<and> l \<in> set (scene_listeners (oid e)))"
    by (auto simp: wired_def split: option.splits)
  then show ?thesis
  proof
    assume "l \<in> set (listeners (bindEvents b0))"
    with app_listeners_closures [OF l0, of self] l(2) show ?thesis by force
  next
    assume "\<exists>e. enhancedScene (fst w) = Some e \<and> l \<in> set (scene_listeners (oid e))"
    with l(2,3,4) show ?thesis by (auto simp: scene_listeners_def)
  qed
qed

lemma dispatch_wired:
  assumes "controls_page b0" and "wired b0 r w" and "r \<noteq> None \<longrightarrow> \<not> speed_input (Dom d)"
  shows "wired b0 r (dispatch pf d w)"
proof -
  have "r \<noteq> None \<longrightarrow> (\<forall>self. RotationSpeedInput self \<notin> set (bound_closures d (snd w)))"
    using speed_closure_bound [OF assms(1,2)] assms(3) by auto
  from fold_run_closure_wired [OF assms(1,2) this] show ?thesis
    by (simp add: dispatch_def)
qed

lemma fire_timeout_wired:
  assumes "wired b0 r w"
  shows "wired b0 r (fire_timeout w)"
proof (cases "timeouts (snd w)")
  case Nil
  with assms show ?thesis by (simp add: fire_timeout_def split_beta)
next
  case (Cons t rest)
  obtain self k where t: "t = (self, k)" by (cases t)
  from assms have "wired b0 r (fst w, (snd w)\<lparr>timeouts := rest\<rparr>)"
    by (simp add: wired_def)
  from on_enhanced_wired [OF this, of "PulseTimeout k" self pf] Cons t
  show ?thesis by (simp add: fire_timeout_def split_beta handler_as_op [symmetric])
qed

lemma page_step_wired:
  assumes "controls_page b0" and "wired b0 r w" and "r \<noteq> None \<longrightarrow> \<not> speed_input ev"
  shows "wired b0 r (page_step pf ev w)"
proof (cases ev)
  case (Call c)
  with step_wired [OF assms(1,2)] show ?thesis by simp
next
  case (Dom d)
  with dispatch_wired [OF assms(1,2)] assms(3) show ?thesis by simp
next
  case TimeoutFires
  with fire_timeout_wired [OF assms(2)] show ?thesis by simp
qed

lemma page_run_wired:
  assumes "controls_page b0"
  shows "wired b0 r w \<Longrightarrow> r \<noteq> None \<longrightarrow> (\<forall>ev \<in> set evs. \<not> speed_input ev) \<Longrightarrow>
         wired b0 r (page_run pf evs w)"
  unfolding page_run_def
proof (induction evs arbitrary: w)
  case Nil
  then show ?case by simp
next
  case (Cons ev evs)
  from Cons.prems(2) have "r \<noteq> None \<longrightarrow> \<not> speed_input ev" by simp
  from page_step_wired [OF assms Cons.prems(1) this, of pf] Cons.IH Cons.prems(2)
  show ?case by simp
qed

lemma basic_init_listeners [simp]:
  "listeners (snd (state_of (basic_init containerId s b))) = listeners b"
  by (auto simp: basic_init_def basic_createScene_def basic_createCamera_def
        basic_createRenderer_def basic_createCube_def basic_addLights_def
        basic_animate_def requestAnimationFrame_def library_def Let_def)

lemma bindEvents_cong:
  "elements b = elements b' \<Longrightarrow> listeners b = listeners b' \<Longrightarrow>
     listeners (bindEvents b) = listeners (bindEvents b')"
  by (simp add: bindEvents_def bind_if_present_def Let_def)

lemma App_wired: "wired b0 None (App b0)"
proof -
  let ?r = "state_of (basic_init ''basic-scene'' (BasicScene (next_oid b0))
                        (b0\<lparr>next_oid := next_oid b0 + 1\<rparr>))"
  have app: "App b0 = (\<lparr>basicScene = Some (fst ?r), enhancedScene = None, currentView = ''basic''\<rparr>,
                      bindEvents (snd ?r))"
    by (simp add: App_def initializeBasicScene_def new_BasicScene_def Let_def split_beta)
  have "listeners (bindEvents (snd ?r)) = listeners (bindEvents b0)"
    by (rule bindEvents_cong) simp_all
  then show ?thesis by (simp add: app wired_def)
qed

lemma bound_for_control:
  assumes "controls_page b0" and "wired b0 r w" and "enhancedScene (fst w) = Some e"
    and "ev_type d = ''input''"
  shows "ev_target d = ''rotation-speed'' \<Longrightarrow> bound_closures d (snd w) = [RotationSpeedInput (oid e)]"
    and "ev_target d = ''cube-color'' \<Longrightarrow> bound_closures d (snd w) = [CubeColorInput (oid e)]"
    and "ev_target d = ''scale'' \<Longrightarrow> bound_closures d (snd w) = [ScaleInput (oid e)]"
proof -
  from assms(1) have l0: "listeners b0 = []" by (simp add: controls_page_def)
  from assms(2,3) have l: "listeners (snd w) = listeners (bindEvents b0) @ scene_listeners (oid e)"
    by (simp add: wired_def)
  show "ev_target d = ''rotation-speed'' \<Longrightarrow> bound_closures d (snd w) = [RotationSpeedInput (oid e)]"
    using assms(4) app_listeners_elsewhere [OF l0, of "''rotation-speed''" "''input''"]
    by (simp add: bound_closures_def l scene_listeners_def)
  show "ev_target d = ''cube-color'' \<Longrightarrow> bound_closures d (snd w) = [CubeColorInput (oid e)]"
    using assms(4) app_listeners_elsewhere [OF l0, of "''cube-color''" "''input''"]
    by (simp add: bound_closures_def l scene_listeners_def)
  show "ev_target d = ''scale'' \<Longrightarrow> bound_closures d (snd w) = [ScaleInput (oid e)]"
    using assms(4) app_listeners_elsewhere [OF l0, of "''scale''" "''input''"]
    by (simp add: bound_closures_def l scene_listeners_def)
qed

lemma control_dispatch:
  assumes "controls_page b0" and "wired b0 r w" and "enhancedScene (fst w) = Some e"
    and "ev_type d = ''input''"
  shows "ev_target d = ''rotation-speed'' \<Longrightarrow>
           dispatch pf d w = ((fst w)\<lparr>enhancedScene := Some (on_rotation_speed pf (target_value d) e)\<rparr>, snd w)"
    and "ev_target d = ''cube-color'' \<Longrightarrow>
           dispatch pf d w = ((fst w)\<lparr>enhancedScene := Some (state_of (on_cube_color (target_value d) e))\<rparr>, snd w)"
    and "ev_target d = ''scale'' \<Longrightarrow>
           dispatch pf d w = ((fst w)\<lparr>enhancedScene := Some (state_of (on_scale pf (target_value d) e))\<rparr>, snd w)"
  using bound_for_control [OF assms] assms(3)
  by (simp_all add: dispatch_def on_enhanced_def split_beta)

lemma speed_input_wired:
  assumes "controls_page b0" and "wired b0 r w" and "enhancedScene (fst w) \<noteq> None"
    and "ev_target d = ''rotation-speed''" and "ev_type d = ''input''"
  shows "wired b0 (Some (pf (target_value d))) (dispatch pf d w)"
proof -
  from assms(3) obtain e where e: "enhancedScene (fst w) = Some e" by auto
  with assms(2) have "tuned r e" by (simp add: wired_def)
  then have t: "tuned (Some (pf (target_value d))) (on_rotation_speed pf (target_value d) e)"
    by (simp add: tuned_def steady_def on_rotation_speed_def)
  from assms(2) e t show ?thesis
    unfolding control_dispatch(1) [OF assms(1,2) e assms(5,4)]
    by (simp add: wired_def on_rotation_speed_def)
qed

lemma tuned_tick:
  assumes "tuned (Some x) e" and "isAnimating e"
  shows "\<exists>c e' b' c'. cube e = Some c \<and> enhanced_animate e b = Returned (e', b')
           \<and> cube e' = Some c'
           \<and> vx (rotation c') = vx (rotation c) + x \<and> vy (rotation c') = vy (rotation c) + x"
proof -
  from assms(1) obtain c where c: "cube e = Some c" and s: "steady e" and r: "rotationSpeed e = x"
    by (auto simp: tuned_def)
  from steady_tick [OF s assms(2) c, of b] c r show ?thesis by auto
qed

text \<open>
  C6, as amended. On a page that has the container of the enhanced scene and the four
  controls, no listener bound before the application starts, and once the enhanced view
  has been opened: an input event on the rotation-speed control, dispatched to the
  listeners bound for it, is followed, whatever else happens on the page short of
  another such input, by ticks of the loop (an \<open>animate\<close> call with \<open>isAnimating\<close> true)
  that each add \<open>pf\<close> of the event's value to \<open>cube.rotation.x\<close> and \<open>cube.rotation.y\<close>;
  an input event on the colour control sets the colour of the cube's material to the
  colour made from its value; an input event on the scale control sets the cube's scale
  to \<open>pf\<close> of its value on all three axes.
\<close>

theorem controls_take_effect:
  assumes "controls_page b0"
    and "enhancedScene (fst (page_run pf evs (App b0))) \<noteq> None"
    and "ev_type d = ''input''"
  shows
    "(ev_target d = ''rotation-speed'' \<and> (\<forall>ev \<in> set later. \<not> speed_input ev) \<longrightarrow>
        (\<exists>e c. enhancedScene (fst (page_run pf later
                    (page_step pf (Dom d) (page_run pf evs (App b0))))) = Some e
           \<and> cube e = Some c
           \<and> (isAnimating e \<longrightarrow>
                (\<exists>e' b' c'. enhanced_animate e b = Returned (e', b') \<and> cube e' = Some c'
                   \<and> vx (rotation c') = vx (rotation c) + pf (target_value d)
                   \<and> vy (rotation c') = vy (rotation c) + pf (target_value d)))))
     \<and> (ev_target d = ''cube-color'' \<longrightarrow>
        (\<exists>e c. enhancedScene (fst (page_step pf (Dom d) (page_run pf evs (App b0)))) = Some e
           \<and> cube e = Some c \<and> color c = ColorStr (target_value d)))
     \<and> (ev_target d = ''scale'' \<longrightarrow>
        (\<exists>e c. enhancedScene (fst (page_step pf (Dom d) (page_run pf evs (App b0)))) = Some e
           \<and> cube e = Some c
           \<and> scale c = vec3_set (pf (target_value d)) (pf (target_value d)) (pf (target_value d))))"
proof -
  let ?w = "page_run pf evs (App b0)"
  have w: "wired b0 None ?w"
    using page_run_wired [OF assms(1) App_wired, of evs pf] by simp
  from assms(2) obtain e0 where e0: "enhancedScene (fst ?w) = Some e0" by auto
  with w obtain c0 where c0: "cube e0 = Some c0" by (auto simp: wired_def tuned_def)
  have speed: "\<exists>e c. enhancedScene (fst (page_run pf later (page_step pf (Dom d) ?w))) = Some e
           \<and> cube e = Some c
           \<and> (isAnimating e \<longrightarrow>
                (\<exists>e' b' c'. enhanced_animate e b = Returned (e', b') \<and> cube e' = Some c'
                   \<and> vx (rotation c') = vx (rotation c) + pf (target_value d)
                   \<and> vy (rotation c') = vy (rotation c) + pf (target_value d)))"
    if t: "ev_target d = ''rotation-speed''" and l: "\<forall>ev \<in> set later. \<not> speed_input ev"
  proof -
    let ?x = "pf (target_value d)"
    from speed_input_wired [OF assms(1) w assms(2) t assms(3), of pf]
    have "wired b0 (Some ?x) (page_step pf (Dom d) ?w)" by simp
    from page_run_wired [OF assms(1) this, of later pf] l
    have w2: "wired b0 (Some ?x) (page_run pf later (page_step pf (Dom d) ?w))" by simp
    then obtain e where e: "enhancedScene (fst (page_run pf later (page_step pf (Dom d) ?w))) = Some e"
      and te: "tuned (Some ?x) e"
      by (auto simp: wired_def split: option.splits)
    from te obtain c where c: "cube e = Some c" by (auto simp: tuned_def)
    from tuned_tick [OF te, of b] c e show ?thesis by auto
  qed
  have colour: "\<exists>e c. enhancedScene (fst (page_step pf (Dom d) ?w)) = Some e
           \<and> cube e = Some c \<and> color c = ColorStr (target_value d)"
    if t: "ev_target d = ''cube-color''"
    using control_dispatch(2) [OF assms(1) w e0 assms(3) t, of pf] c0
    by (simp add: on_cube_color_def)
  have scaled: "\<exists>e c. enhancedScene (fst (page_step pf (Dom d) ?w)) = Some e
           \<and> cube e = Some c
           \<and> scale c = vec3_set (pf (target_value d)) (pf (target_value d)) (pf (target_value d))"
    if t: "ev_target d = ''scale''"
    using control_dispatch(3) [OF assms(1) w e0 assms(3) t, of pf] c0
    by (simp add: on_scale_def Let_def)
  from speed colour scaled show ?thesis by blast
qed

section \<open>The page at concrete inputs\<close>

text \<open>The definitions that evaluating the page unfolds.\<close>

lemmas basic_eval = BasicScene_def new_BasicScene_def basic_createScene_def basic_createCamera_def
  basic_createRenderer_def basic_cube_node_def basic_createCube_def basic_addLights_def spin_def
  basic_animate_def basic_init_def basic_pause_def basic_resume_def requestAnimationFrame_def
  cancelAnimationFrame_def library_def

lemmas enhanced_eval = EnhancedScene_def new_EnhancedScene_def enhanced_cube_node_def
  enhanced_createEnhancedCube_def enhanced_addEnhancedLights_def enhanced_addParticles_def
  enhanced_addOrbitControls_def bind_def enhanced_bindControls_def enhanced_addMouseInteraction_def
  enhanced_animate_tail_def enhanced_animate_def enhanced_init_def enhanced_pause_def
  enhanced_resume_def

lemmas app_eval = run_def App_def initializeBasicScene_def initializeEnhancedScene_def
  bindEvents_def bind_if_present_def hideBasicView_def showEnhancedViewUI_def hideEnhancedView_def
  showBasicViewUI_def classList_add_def classList_remove_def pauseBasicScene_def
  pauseEnhancedScene_def resumeBasicScene_def resumeEnhancedScene_def showEnhancedView_def
  showBasicView_def run_frame_def run_callback_def animate_callback_def scheduled_def page_def

lemmas dom_eval = page_run_def dispatch_def bound_closures_def on_enhanced_def input_event_def
  sample_parseFloat_def fire_timeout_def enhanced_cube_def on_rotation_speed_def
  on_cube_color_def on_scale_def handleWindowResize_def

lemmas legacy_eval = legacy_run_def legacy_App_def legacy_basic_init_def legacy_bindEvents_def
  legacy_showEnhancedView_def legacy_showBasicView_def views_consistent_def shown_def

section \<open>Window resizes\<close>

text \<open>
  C10. \<open>handleWindowResize\<close> calls \<open>onWindowResize\<close> of the current view's scene only:
  with \<open>currentView\<close> \<open>basic\<close> the enhanced scene is untouched and the basic scene is what
  its \<open>onWindowResize\<close> returns, and the other way round with \<open>enhanced\<close>. A scene's
  \<open>onWindowResize\<close> sets the camera's aspect to \<open>innerWidth / innerHeight\<close> and the
  renderer's size to the window's, and changes nothing, in the scene or the browser,
  when the camera or the renderer is \<open>null\<close>.
\<close>

theorem resize_routing:
  "(currentView a = ''basic'' \<longrightarrow>
      enhancedScene (fst (handleWindowResize (a, b))) = enhancedScene a
      \<and> basicScene (fst (handleWindowResize (a, b)))
          = map_option (\<lambda>s. fst (basic_onWindowResize s b)) (basicScene a))
   \<and> (currentView a = ''enhanced'' \<longrightarrow>
      basicScene (fst (handleWindowResize (a, b))) = basicScene a
      \<and> enhancedScene (fst (handleWindowResize (a, b)))
          = map_option (\<lambda>e. fst (enhanced_onWindowResize e b)) (enhancedScene a))
   \<and> (camera s = Some cam \<and> renderer s = Some r \<longrightarrow>
      fst (basic_onWindowResize s b)
        = s\<lparr>camera := Some (cam\<lparr>aspect := Quot (innerWidth b) (innerHeight b)\<rparr>),
             renderer := Some (r\<lparr>rsize := (innerWidth b, innerHeight b)\<rparr>)\<rparr>)
   \<and> (camera e = Some cam \<and> renderer e = Some r \<longrightarrow>
      fst (enhanced_onWindowResize e b)
        = e\<lparr>camera := Some (cam\<lparr>aspect := Quot (innerWidth b) (innerHeight b)\<rparr>),
             renderer := Some (r\<lparr>rsize := (innerWidth b, innerHeight b)\<rparr>)\<rparr>)
   \<and> (camera s = None \<or> renderer s = None \<longrightarrow> basic_onWindowResize s b = (s, b))
   \<and> (camera e = None \<or> renderer e = None \<longrightarrow> enhanced_onWindowResize e b = (e, b))"
  by (auto simp: handleWindowResize_def basic_onWindowResize_def enhanced_onWindowResize_def
           split: option.splits prod.splits)

theorem resize_routing_witness:
  "currentView (fst (App page)) = ''basic''
   \<and> enhancedScene (fst (step (ResizeTo 800 600) (App page))) = enhancedScene (fst (App page))
   \<and> map_option camera (basicScene (fst (step (ResizeTo 800 600) (App page))))
       = Some (Some \<lparr>fov = 75, aspect = Quot 800 600, near = 0.1, far = 1000,
                      camera_position = vec3_set 0 0 5\<rparr>)
   \<and> map_option renderer (basicScene (fst (step (ResizeTo 800 600) (App page))))
       = Some (Some \<lparr>antialias = True, rsize = (800, 600), shadowMapEnabled = True,
                      toneMappingExposure = None\<rparr>)
   \<and> currentView (fst (run [ShowEnhancedView] (App page))) = ''enhanced''
   \<and> basicScene (fst (step (ResizeTo 800 600) (run [ShowEnhancedView] (App page))))
       = basicScene (fst (run [ShowEnhancedView] (App page)))
   \<and> map_option (\<lambda>e. map_option aspect (camera e))
         (enhancedScene (fst (step (ResizeTo 800 600) (run [ShowEnhancedView] (App page)))))
       = Some (Some (Quot 800 600))
   \<and> basic_onWindowResize (BasicScene 0) page = (BasicScene 0, page)
   \<and> enhanced_onWindowResize (EnhancedScene 1) page = (EnhancedScene 1, page)"
proof -
  let ?w1 = "App page"
  let ?w2 = "run [ShowEnhancedView] (App page)"
  let ?cam = "\<lparr>fov = 75, aspect = Quot 1280 720, near = 0.1, far = 1000,
               camera_position = vec3_set 0 0 5\<rparr>"
  let ?cam2 = "\<lparr>fov = 75, aspect = Quot 1280 720, near = 0.1, far = 1000,
               camera_position = vec3_set 0 0 6\<rparr>"
  let ?r = "\<lparr>antialias = True, rsize = (1280, 720), shadowMapEnabled = True,
             toneMappingExposure = None\<rparr>"
  let ?r2 = "\<lparr>antialias = True, rsize = (1280, 720), shadowMapEnabled = True,
             toneMappingExposure = Some 1\<rparr>"
  let ?rs = "\<lambda>b. b\<lparr>innerWidth := 800, innerHeight := 600\<rparr>"
  have v1: "currentView (fst ?w1) = ''basic''"
    and s1: "map_option camera (basicScene (fst ?w1)) = Some (Some ?cam)"
            "map_option renderer (basicScene (fst ?w1)) = Some (Some ?r)"
    by (simp_all add: app_eval basic_eval Let_def)
  have v2: "currentView (fst ?w2) = ''enhanced''"
    and s2: "map_option camera (enhancedScene (fst ?w2)) = Some (Some ?cam2)"
            "map_option renderer (enhancedScene (fst ?w2)) = Some (Some ?r2)"
    by (simp_all add: app_eval basic_eval enhanced_eval Let_def)
  from s1 obtain s where s: "basicScene (fst ?w1) = Some s" "camera s = Some ?cam" "renderer s = Some ?r"
    by auto
  from s2 obtain e where e: "enhancedScene (fst ?w2) = Some e" "camera e = Some ?cam2" "renderer e = Some ?r2"
    by auto
  have f1: "enhancedScene (fst (step (ResizeTo 800 600) ?w1)) = enhancedScene (fst ?w1)"
    "basicScene (fst (step (ResizeTo 800 600) ?w1)) = Some (fst (basic_onWindowResize s (?rs (snd ?w1))))"
    using resize_routing [of "fst ?w1" "?rs (snd ?w1)"] v1 s(1) by simp_all
  have f2: "fst (basic_onWindowResize s (?rs (snd ?w1))) =
      s\<lparr>camera := Some (?cam\<lparr>aspect := Quot 800 600\<rparr>), renderer := Some (?r\<lparr>rsize := (800, 600)\<rparr>)\<rparr>"
    using resize_routing [of _ "?rs (snd ?w1)" s ?cam ?r] s(2,3) by simp
  have f3: "basicScene (fst (step (ResizeTo 800 600) ?w2)) = basicScene (fst ?w2)"
    "enhancedScene (fst (step (ResizeTo 800 600) ?w2)) = Some (fst (enhanced_onWindowResize e (?rs (snd ?w2))))"
    using resize_routing [of "fst ?w2" "?rs (snd ?w2)"] v2 e(1) by simp_all
  have f4: "fst (enhanced_onWindowResize e (?rs (snd ?w2))) =
      e\<lparr>camera := Some (?cam2\<lparr>aspect := Quot 800 600\<rparr>), renderer := Some (?r2\<lparr>rsize := (800, 600)\<rparr>)\<rparr>"
    using resize_routing [of _ "?rs (snd ?w2)" _ ?cam2 ?r2 e] e(2,3) by simp
  have f5: "basic_onWindowResize (BasicScene 0) page = (BasicScene 0, page)"
    "enhanced_onWindowResize (EnhancedScene 1) page = (EnhancedScene 1, page)"
    using resize_routing [of _ page "BasicScene 0" _ _ "EnhancedScene 1"]
    by (simp_all add: BasicScene_def EnhancedScene_def)
  show ?thesis
    using v1 v2 f1 f2 f3 f4 f5 by simp
qed

section \<open>The two views and the controls at concrete pages\<close>

theorem view_switch_invariant_witness:
  "wf_page page \<and> full_page page
   \<and> views_consistent (run [ShowEnhancedView, AnimationFrame 16, ShowBasicView] (App page))
   \<and> currentView (fst (run [ShowEnhancedView] (App page))) = ''enhanced''
   \<and> (\<exists>w. legacy_App page = Returned w
          \<and> views_consistent (legacy_run [ShowEnhancedView, AnimationFrame 16, ShowBasicView] w))"
proof -
  have h: "wf_page page"
    by (simp add: wf_page_def shown_def page_def)
  then have f: "full_page page"
    by (simp add: full_page_def page_def)
  have v: "currentView (fst (run [ShowEnhancedView] (App page))) = ''enhanced''"
    by (simp add: app_eval basic_eval enhanced_eval Let_def)
  from view_switch_invariant [OF h, of "[ShowEnhancedView, AnimationFrame 16, ShowBasicView]"] h f v
  show ?thesis by simp
qed

text \<open>
  C2 fails as stated. Without the container of the basic scene \<open>init\<close> returns early,
  the scene has no renderer, \<open>resume\<close> throws inside \<open>showBasicView\<close>, and the \<open>catch\<close>
  leaves \<open>currentView\<close> at \<open>enhanced\<close> with the basic panel shown. In the earlier
  revision, on a page without the container of the enhanced scene, the constructor
  returns, and \<open>init\<close> of the enhanced scene throws out of \<open>showEnhancedView\<close> after the
  panels were switched: the enhanced panel is shown, \<open>currentView\<close> is still \<open>basic\<close>.
\<close>

theorem view_switch_counterexample:
  "\<not> views_consistent (run [ShowEnhancedView, ShowBasicView]
                        (App (page\<lparr>elements := elements page - {''basic-scene''}\<rparr>)))
   \<and> wf_page (page\<lparr>elements := elements page - {''enhanced-scene''}\<rparr>)
   \<and> legacy_App (page\<lparr>elements := elements page - {''enhanced-scene''}\<rparr>)
       = Returned (state_of (legacy_App (page\<lparr>elements := elements page - {''enhanced-scene''}\<rparr>)))
   \<and> \<not> views_consistent (legacy_run [ShowEnhancedView]
          (state_of (legacy_App (page\<lparr>elements := elements page - {''enhanced-scene''}\<rparr>))))"
  by (simp add: app_eval basic_eval enhanced_eval legacy_eval wf_page_def Let_def)

theorem controls_take_effect_witness:
  "controls_page page
   \<and> (\<exists>e c. enhancedScene (fst (page_run sample_parseFloat [Call (AnimationFrame 16)]
               (page_step sample_parseFloat (Dom (input_event ''rotation-speed'' ''0.05''))
                 (page_run sample_parseFloat [Call ShowEnhancedView] (App page))))) = Some e
          \<and> cube e = Some c \<and> isAnimating e
          \<and> (\<exists>e' b' c'. enhanced_animate e page = Returned (e', b') \<and> cube e' = Some c'
                \<and> vx (rotation c') = vx (rotation c) + 0.05
                \<and> vy (rotation c') = vy (rotation c) + 0.05))
   \<and> map_option color (enhanced_cube
         (page_step sample_parseFloat (Dom (input_event ''cube-color'' ''#ff0000''))
           (page_run sample_parseFloat [Call ShowEnhancedView] (App page))))
       = Some (ColorStr ''#ff0000'')
   \<and> map_option scale (enhanced_cube
         (page_step sample_parseFloat (Dom (input_event ''scale'' ''2''))
           (page_run sample_parseFloat [Call ShowEnhancedView] (App page))))
       = Some (vec3_set 2 2 2)"
proof -
  let ?pf = sample_parseFloat
  let ?w = "page_run ?pf [Call ShowEnhancedView] (App page)"
  let ?later = "[Call (AnimationFrame 16)]"
  have p: "controls_page page"
    by (simp add: controls_page_def page_def)
  have o: "enhancedScene (fst ?w) \<noteq> None"
    using showEnhancedView_resumes [of "App page"]
    by (auto simp: page_run_def split: option.splits)
  have a: "map_option isAnimating (enhancedScene (fst (page_run ?pf ?later
               (page_step ?pf (Dom (input_event ''rotation-speed'' ''0.05'')) ?w)))) = Some True"
    by (simp add: dom_eval app_eval basic_eval enhanced_eval Let_def)
  have t: "ev_type (input_event x y) = ''input''" "ev_target (input_event x y) = x"
    "target_value (input_event x y) = y" for x y
    by (simp_all add: input_event_def)
  have s: "\<forall>ev \<in> set ?later. \<not> speed_input ev" by simp
  from controls_take_effect [OF p o t(1), of "''rotation-speed''" "''0.05''" ?later page] s a
  have r1: "\<exists>e c. enhancedScene (fst (page_run ?pf ?later
               (page_step ?pf (Dom (input_event ''rotation-speed'' ''0.05'')) ?w))) = Some e
          \<and> cube e = Some c \<and> isAnimating e
          \<and> (\<exists>e' b' c'. enhanced_animate e page = Returned (e', b') \<and> cube e' = Some c'
                \<and> vx (rotation c') = vx (rotation c) + 0.05
                \<and> vy (rotation c') = vy (rotation c) + 0.05)"
    by (auto simp: t sample_parseFloat_def)
  from controls_take_effect [OF p o t(1), of "''cube-color''" "''#ff0000''"]
  have r2: "map_option color (enhanced_cube
         (page_step ?pf (Dom (input_event ''cube-color'' ''#ff0000'')) ?w)) = Some (ColorStr ''#ff0000'')"
    by (auto simp: t enhanced_cube_def)
  from controls_take_effect [OF p o t(1), of "''scale''" "''2''"]
  have r3: "map_option scale (enhanced_cube
         (page_step ?pf (Dom (input_event ''scale'' ''2'')) ?w)) = Some (vec3_set 2 2 2)"
    by (auto simp: t enhanced_cube_def sample_parseFloat_def)
  from p r1 r2 r3 show ?thesis by blast
qed

text \<open>
  C6 fails as stated. On a page without the wireframe checkbox \<open>bindControls\<close> throws
  before it reaches the scale control, the \<open>catch\<close> of \<open>initializeEnhancedScene\<close> takes
  the error, and the scene is resumed all the same: an input event on the scale control
  with value \<open>2\<close> finds no listener and the cube's scale stays \<open>(1, 1, 1)\<close>.
\<close>

theorem controls_counterexample:
  "sample_parseFloat ''2'' = 2
   \<and> map_option isAnimating (enhancedScene (fst
         (page_run sample_parseFloat [Call ShowEnhancedView]
           (App (page\<lparr>elements := elements page - {''wireframe''}\<rparr>))))) = Some True
   \<and> map_option scale (enhanced_cube
         (page_step sample_parseFloat (Dom (input_event ''scale'' ''2''))
           (page_run sample_parseFloat [Call ShowEnhancedView]
             (App (page\<lparr>elements := elements page - {''wireframe''}\<rparr>)))))
       = Some (vec3_set 1 1 1)"
  by (simp add: dom_eval app_eval basic_eval enhanced_eval Let_def)

section \<open>Frame callbacks scheduled twice\<close>

text \<open>
  C1. The claim fails on the code. On a page with every element, \<open>new App()\<close> and the
  first \<open>showEnhancedView\<close>: \<open>init\<close> of the enhanced scene (object 1) starts the loop
  (handle 2), and \<open>resume\<close>, called right after, requests a second callback (handle 3);
  both are scheduled, and after the next frame both have rescheduled themselves
  (handles 4 and 5). Likewise \<open>resume\<close> on the basic scene while it is animating
  leaves its callbacks 1 and 2 scheduled.
\<close>

theorem double_scheduling:
  "map_option oid (enhancedScene (fst (run [ShowEnhancedView] (App page)))) = Some 1
   \<and> scheduled 1 (snd (run [ShowEnhancedView] (App page))) = [2, 3]
   \<and> scheduled 1 (snd (run [ShowEnhancedView, AnimationFrame 16] (App page))) = [4, 5]
   \<and> scheduled 0 (snd (state_of (basic_resume (the (basicScene (fst (App page))))
                                   (snd (App page))))) = [1, 2]"
  by (simp add: app_eval basic_eval enhanced_eval Let_def)

text \<open>
  C3. The claim fails on the code, by the same double scheduling. After \<open>new App()\<close>,
  \<open>showEnhancedView\<close> and \<open>showBasicView\<close>, the enhanced scene was paused
  (\<open>isAnimating\<close> is false) and the callback recorded in \<open>animationId\<close>, handle 3, was
  cancelled, but the callback with handle 2 that \<open>init\<close> had requested is still
  scheduled. With a frame between the two switches it is handle 4 that stays.
\<close>

theorem pause_leaves_callback:
  "map_option isAnimating (enhancedScene (fst (run [ShowEnhancedView, ShowBasicView] (App page))))
     = Some False
   \<and> map_option animationId (enhancedScene (fst (run [ShowEnhancedView, ShowBasicView] (App page))))
     = Some (Some 3)
   \<and> scheduled 1 (snd (run [ShowEnhancedView, ShowBasicView] (App page))) = [2]
   \<and> scheduled 1 (snd (run [ShowEnhancedView, AnimationFrame 16, ShowBasicView] (App page)))
       = [4]"
  by (simp add: app_eval basic_eval enhanced_eval Let_def)

text \<open>
  C7. The claim fails on the code, by the same double scheduling. After \<open>new App()\<close> and
  \<open>showEnhancedView\<close>, disposing the application disposes both scenes: the library
  calls are forwarded (orbit controls, renderers, every geometry and material of the
  two scene graphs), but callback 2 of the enhanced scene is still scheduled afterwards
  (callback 4 when a frame has run before).
\<close>

theorem dispose_leaves_callback:
  "scheduled 1 (snd (app_dispose (run [ShowEnhancedView] (App page)))) = [2]
   \<and> scheduled 1 (snd (app_dispose (run [ShowEnhancedView, AnimationFrame 16] (App page)))) = [4]
   \<and> enhancedScene (fst (app_dispose (run [ShowEnhancedView] (App page)))) = None
   \<and> calls (snd (app_dispose (run [ShowEnhancedView] (App page)))) =
       [Render 0, ControlsUpdate 1, ControlsUpdate 1, Render 1, ControlsUpdate 1, Render 1,
        RendererDispose 0, GeometryDispose ''BoxGeometry'', MaterialDispose ''MeshLambertMaterial'',
        ControlsDispose 1, RendererDispose 1,
        GeometryDispose ''BoxGeometry'', MaterialDispose ''MeshPhysicalMaterial'',
        GeometryDispose ''EdgesGeometry'', MaterialDispose ''LineBasicMaterial'',
        GeometryDispose ''BufferGeometry'', MaterialDispose ''PointsMaterial'']"
  by (simp add: app_eval basic_eval enhanced_eval app_dispose_def basic_dispose_def
        enhanced_dispose_def dispose_graph_def dispose_object_def light_colors_def Let_def)

subsection \<open>What pausing and disposing do achieve\<close>

lemma animate_when_paused:
  "\<not> isAnimating s \<Longrightarrow> basic_animate s b = Returned (s, b)"
  "\<not> isAnimating e \<Longrightarrow> enhanced_animate e b = Returned (e, b)"
  by (simp_all add: basic_animate_def enhanced_animate_def)

lemma pause_then_animate:
  "basic_animate (fst (basic_pause s b)) b' = Returned (fst (basic_pause s b), b')"
  "enhanced_animate (fst (enhanced_pause e b)) b' = Returned (fst (enhanced_pause e b), b')"
  by (simp_all add: animate_when_paused)

lemma pause_cancels_recorded:
  assumes "animationId s = Some h" and "h \<noteq> 0"
  shows "h \<notin> fst ` set (pending (snd (basic_pause s b)))"
  using assms by (auto simp: basic_pause_def cancelAnimationFrame_def)

lemma pause_single_callback:
  assumes "animationId s = Some h" and "h \<noteq> 0" and "scheduled (oid s) b = [h]"
  shows "scheduled (oid s) (snd (basic_pause s b)) = []"
proof -
  have "filter (\<lambda>x. x \<noteq> h) (scheduled (oid s) b) = []"
    using assms(3) by simp
  moreover have "scheduled (oid s) (snd (basic_pause s b)) = filter (\<lambda>x. x \<noteq> h) (scheduled (oid s) b)"
    using assms(1,2)
    by (simp add: basic_pause_def cancelAnimationFrame_def scheduled_def filter_map o_def conj_commute)
  ultimately show ?thesis by simp
qed

lemma dispose_calls:
  "calls (snd (basic_dispose s b)) =
     calls b
     @ (case renderer s of None \<Rightarrow> [] | Some r \<Rightarrow> [RendererDispose (oid s)])
     @ (case scene s of None \<Rightarrow> [] | Some g \<Rightarrow> dispose_graph g)"
  "calls (snd (enhanced_dispose e b)) =
     calls b
     @ (case controls e of None \<Rightarrow> [] | Some k \<Rightarrow> [ControlsDispose (oid e)])
     @ (case renderer e of None \<Rightarrow> [] | Some r \<Rightarrow> [RendererDispose (oid e)])
     @ (case scene e of None \<Rightarrow> [] | Some g \<Rightarrow> dispose_graph g)"
  by (auto simp: basic_dispose_def enhanced_dispose_def basic_pause_def enhanced_pause_def
        cancelAnimationFrame_def library_def Let_def split: option.splits)

lemma dispose_graph_geometry:
  "ob \<in> set (traverse g) \<Longrightarrow> geometry ob = Some x \<Longrightarrow> GeometryDispose x \<in> set (dispose_graph g)"
  by (auto simp: dispose_graph_def dispose_object_def intro!: bexI [of _ ob])

lemma dispose_graph_material:
  "ob \<in> set (traverse g) \<Longrightarrow> material ob = OneMaterial m \<Longrightarrow>
     MaterialDispose m \<in> set (dispose_graph g)"
  "ob \<in> set (traverse g) \<Longrightarrow> material ob = ManyMaterials ms \<Longrightarrow> m \<in> set ms \<Longrightarrow>
     MaterialDispose m \<in> set (dispose_graph g)"
  by (auto simp: dispose_graph_def dispose_object_def intro!: bexI [of _ ob])

end
